theory Spec2Isabelle
  imports Main
begin

section \<open>JavaScript values and the runtime functions the service relies on\<close>

text \<open>
  The payloads handled by \<^verbatim>\<open>posthog.service.ts\<close> and the interceptor are typed \<^verbatim>\<open>any\<close>;
  at run time they are JSON-like values. A \<open>json\<close> is such a value. Numbers are the
  safe integers (magnitude below \<open>2^53\<close>, which \<^verbatim>\<open>JSON.stringify\<close> prints digit by digit); a
  \<open>char\<close> is one code unit of a JavaScript string (code units below 256). The entries of
  \<open>JObj\<close> are the own properties of a plain object; for a value the program receives
  they stand in the order \<^verbatim>\<open>Object.keys\<close> lists them, for an object the program builds
  they stand in the order of assignment (\<^verbatim>\<open>Object.keys\<close> would list integer-like keys
  first). \<^verbatim>\<open>undefined\<close> is \<open>None\<close> of \<open>json option\<close>.

  Of the prototype chain the model has the accessor \<^verbatim>\<open>__proto__\<close> of \<^verbatim>\<open>Object.prototype\<close>
  where the program assigns through it (\<open>obj_assign\<close> below). The methods a value inherits
  (\<^verbatim>\<open>toString\<close>, \<^verbatim>\<open>constructor\<close>, ...) are not modelled: reading such a name where it is not
  an own property gives \<^verbatim>\<open>undefined\<close> in the model and a function in the program.
\<close>

datatype json =
    JNull
  | JBool bool
  | JNum int
  | JStr string
  | JArr "json list"
  | JObj "(string \<times> json) list"

text \<open>The exceptions that the modelled code can meet.\<close>

datatype js_error =
    SyntaxError
  | TypeError
  | RangeError
  | FetchError
  | OutsideModel

text \<open>Truthiness, as tested by \<^verbatim>\<open>if (x)\<close>, \<^verbatim>\<open>!x\<close>, \<^verbatim>\<open>x && y\<close> and \<^verbatim>\<open>x || y\<close>.\<close>

fun truthy :: "json \<Rightarrow> bool" where
  "truthy JNull = False"
| "truthy (JBool b) = b"
| "truthy (JNum n) = (n \<noteq> 0)"
| "truthy (JStr s) = (s \<noteq> [])"
| "truthy (JArr xs) = True"
| "truthy (JObj kvs) = True"

definition truthy_opt :: "json option \<Rightarrow> bool" where
  "truthy_opt v = (case v of None \<Rightarrow> False | Some x \<Rightarrow> truthy x)"

text \<open>\<^verbatim>\<open>a || b\<close> on possibly undefined values.\<close>

definition js_or :: "json option \<Rightarrow> json option \<Rightarrow> json option" where
  "js_or a b = (if truthy_opt a then a else b)"

subsection \<open>Decimal rendering of numbers\<close>

fun show_nat :: "nat \<Rightarrow> string" where
  "show_nat n = (if n < 10 then [''0123456789'' ! n]
                 else show_nat (n div 10) @ [''0123456789'' ! (n mod 10)])"

declare show_nat.simps [simp del]

definition show_int :: "int \<Rightarrow> string" where
  "show_int i = (if i < 0 then CHR ''-'' # show_nat (nat (- i)) else show_nat (nat i))"

subsection \<open>Own properties\<close>

text \<open>Reading and writing an own property of a plain object (\<^verbatim>\<open>o[k]\<close>, \<^verbatim>\<open>o[k] = v\<close>):
  writing keeps the position of an existing key and appends a new one.\<close>

definition obj_get :: "(string \<times> json) list \<Rightarrow> string \<Rightarrow> json option" where
  "obj_get kvs k = map_of kvs k"

primrec obj_set :: "(string \<times> json) list \<Rightarrow> string \<Rightarrow> json \<Rightarrow> (string \<times> json) list" where
  "obj_set [] k v = [(k, v)]"
| "obj_set (p # ps) k v = (if fst p = k then (k, v) # ps else p # obj_set ps k v)"

text \<open>
  \<^verbatim>\<open>o[k] = v\<close> where \<open>k\<close> is a key of the data and \<open>o\<close> an object that the program created
  with \<^verbatim>\<open>{}\<close> and only ever assigned to. For the key \<^verbatim>\<open>__proto__\<close> the assignment calls the
  setter inherited from \<^verbatim>\<open>Object.prototype\<close>: it changes the prototype of \<open>o\<close> (or does
  nothing, when \<open>v\<close> is not an object) and adds no own property. (A value that was parsed
  from JSON or copied by \<^verbatim>\<open>{ ...v }\<close> can have \<^verbatim>\<open>__proto__\<close> as an own key.)
\<close>

definition obj_assign :: "(string \<times> json) list \<Rightarrow> string \<Rightarrow> json \<Rightarrow> (string \<times> json) list" where
  "obj_assign kvs k v = (if k = ''__proto__'' then kvs else obj_set kvs k v)"

text \<open>The index keys \<^verbatim>\<open>"0"\<close>, \<^verbatim>\<open>"1"\<close>, ... of an array or string of length \<open>n\<close>.\<close>

definition index_keys :: "nat \<Rightarrow> string list" where
  "index_keys n = map show_nat [0..<n]"

text \<open>The own enumerable properties of a value: what \<^verbatim>\<open>{ ...v }\<close> copies and what
  \<^verbatim>\<open>Object.keys(v)\<close> names. Numbers, booleans and \<^verbatim>\<open>null\<close> have none.\<close>

fun own_props :: "json \<Rightarrow> (string \<times> json) list" where
  "own_props (JObj kvs) = kvs"
| "own_props (JArr xs) = zip (index_keys (length xs)) xs"
| "own_props (JStr s) = zip (index_keys (length s)) (map (\<lambda>c. JStr [c]) s)"
| "own_props _ = []"

definition object_keys :: "json \<Rightarrow> string list" where
  "object_keys v = map fst (own_props v)"

text \<open>\<^verbatim>\<open>v?.[key]\<close>: an own property, or the \<^verbatim>\<open>length\<close> of an array or string;
  \<^verbatim>\<open>undefined\<close> otherwise, also on \<^verbatim>\<open>null\<close>.\<close>

fun opt_get :: "json \<Rightarrow> string \<Rightarrow> json option" where
  "opt_get (JArr xs) k =
     (if k = ''length'' then Some (JNum (int (length xs))) else map_of (own_props (JArr xs)) k)"
| "opt_get (JStr s) k =
     (if k = ''length'' then Some (JNum (int (length s))) else map_of (own_props (JStr s)) k)"
| "opt_get v k = map_of (own_props v) k"

subsection \<open>JSON.stringify\<close>

definition dquote :: char where "dquote = CHR 0x22"
definition bslash :: char where "bslash = CHR 0x5C"

definition hex_digit :: "nat \<Rightarrow> char" where
  "hex_digit n = ''0123456789abcdef'' ! (n mod 16)"

text \<open>One code unit inside a quoted JSON string.\<close>

definition escape_char :: "char \<Rightarrow> string" where
  "escape_char c =
     (if c = dquote then [bslash, dquote]
      else if c = bslash then [bslash, bslash]
      else if c = CHR 0x08 then [bslash, CHR ''b'']
      else if c = CHR 0x0C then [bslash, CHR ''f'']
      else if c = CHR 0x0A then [bslash, CHR ''n'']
      else if c = CHR 0x0D then [bslash, CHR ''r'']
      else if c = CHR 0x09 then [bslash, CHR ''t'']
      else if (of_char c :: nat) < 32
        then [bslash, CHR ''u'', CHR ''0'', CHR ''0'',
              hex_digit (of_char c div 16), hex_digit (of_char c)]
      else [c])"

definition quote :: "string \<Rightarrow> string" where
  "quote s = dquote # concat (map escape_char s) @ [dquote]"

text \<open>\<^verbatim>\<open>Array.prototype.join\<close> on strings.\<close>

fun join :: "string \<Rightarrow> string list \<Rightarrow> string" where
  "join sep [] = []"
| "join sep [x] = x"
| "join sep (x # y # ys) = x @ sep @ join sep (y # ys)"

fun JSON_stringify :: "json \<Rightarrow> string"
  and stringify_elems :: "json list \<Rightarrow> string list"
  and stringify_members :: "(string \<times> json) list \<Rightarrow> string list" where
  "JSON_stringify JNull = ''null''"
| "JSON_stringify (JBool b) = (if b then ''true'' else ''false'')"
| "JSON_stringify (JNum n) = show_int n"
| "JSON_stringify (JStr s) = quote s"
| "JSON_stringify (JArr xs) = ''['' @ join '','' (stringify_elems xs) @ '']''"
| "JSON_stringify (JObj kvs) = ''{'' @ join '','' (stringify_members kvs) @ ''}''"
| "stringify_elems [] = []"
| "stringify_elems (x # xs) = JSON_stringify x # stringify_elems xs"
| "stringify_members [] = []"
| "stringify_members (kv # kvs) =
     (quote (fst kv) @ '':'' @ JSON_stringify (snd kv)) # stringify_members kvs"

subsection \<open>JSON.parse\<close>

text \<open>
  \<^verbatim>\<open>JSON.parse\<close> raises \<^verbatim>\<open>SyntaxError\<close> on a text that is not JSON. The text is first cut
  into tokens by a scanner that reads one code unit at a time, then the tokens are
  assembled into a value. A number written with a fraction or an exponent and a
  four-digit hexadecimal escape above 255 are recognised as tokens, but denote values that \<open>json\<close> does
  not hold: such a token has no value, and a text that is otherwise read up to it yields
  \<open>OutsideModel\<close>.
\<close>

datatype token =
    TLBrace | TRBrace | TLBrack | TRBrack | TColon | TComma
  | TStr "string option"
  | TNum "int option"
  | TTrue | TFalse | TNull

datatype scan_state =
    LTop
  | LStr "string option"
  | LEsc "string option"
  | LHex "string option" "nat list"
  | LLit string token
  | LMinus
  | LZero
  | LInt bool nat
  | LDot
  | LFrac
  | LExp
  | LExpSign
  | LExpDigits

definition is_digit :: "char \<Rightarrow> bool" where
  "is_digit c = (c \<in> set ''0123456789'')"

definition digit_val :: "char \<Rightarrow> nat" where
  "digit_val c = of_char c - 48"

definition hex_val :: "char \<Rightarrow> nat option" where
  "hex_val c =
     (if is_digit c then Some (digit_val c)
      else if c \<in> set ''abcdef'' then Some (of_char c - 87)
      else if c \<in> set ''ABCDEF'' then Some (of_char c - 55)
      else None)"

definition app_unit :: "string option \<Rightarrow> char \<Rightarrow> string option" where
  "app_unit acc c = map_option (\<lambda>s. s @ [c]) acc"

text \<open>The code unit written \<^verbatim>\<open>\uXXXX\<close>, appended to the string read so far.\<close>

definition app_hex :: "string option \<Rightarrow> nat list \<Rightarrow> string option" where
  "app_hex acc ds =
     (let n = foldl (\<lambda>a d. 16 * a + d) 0 ds
      in if n < 256 then app_unit acc (char_of n) else None)"

definition int_token :: "bool \<Rightarrow> nat \<Rightarrow> token" where
  "int_token neg n = TNum (Some (if neg then - int n else int n))"

text \<open>A code unit met between tokens.\<close>

definition step_top :: "token list \<Rightarrow> char \<Rightarrow> (scan_state \<times> token list) option" where
  "step_top ts c =
     (if c \<in> set [CHR '' '', CHR 0x09, CHR 0x0A, CHR 0x0D] then Some (LTop, ts)
      else if c = CHR ''{'' then Some (LTop, ts @ [TLBrace])
      else if c = CHR ''}'' then Some (LTop, ts @ [TRBrace])
      else if c = CHR ''['' then Some (LTop, ts @ [TLBrack])
      else if c = CHR '']'' then Some (LTop, ts @ [TRBrack])
      else if c = CHR '':'' then Some (LTop, ts @ [TColon])
      else if c = CHR '','' then Some (LTop, ts @ [TComma])
      else if c = dquote then Some (LStr (Some []), ts)
      else if c = CHR ''-'' then Some (LMinus, ts)
      else if c = CHR ''0'' then Some (LZero, ts)
      else if is_digit c then Some (LInt False (digit_val c), ts)
      else if c = CHR ''t'' then Some (LLit ''rue'' TTrue, ts)
      else if c = CHR ''f'' then Some (LLit ''alse'' TFalse, ts)
      else if c = CHR ''n'' then Some (LLit ''ull'' TNull, ts)
      else None)"

fun step :: "scan_state \<Rightarrow> token list \<Rightarrow> char \<Rightarrow> (scan_state \<times> token list) option" where
  "step LTop ts c = step_top ts c"
| "step (LStr acc) ts c =
     (if c = dquote then Some (LTop, ts @ [TStr acc])
      else if c = bslash then Some (LEsc acc, ts)
      else if (of_char c :: nat) < 32 then None
      else Some (LStr (app_unit acc c), ts))"
| "step (LEsc acc) ts c =
     (if c = dquote \<or> c = bslash \<or> c = CHR ''/'' then Some (LStr (app_unit acc c), ts)
      else if c = CHR ''b'' then Some (LStr (app_unit acc (CHR 0x08)), ts)
      else if c = CHR ''f'' then Some (LStr (app_unit acc (CHR 0x0C)), ts)
      else if c = CHR ''n'' then Some (LStr (app_unit acc (CHR 0x0A)), ts)
      else if c = CHR ''r'' then Some (LStr (app_unit acc (CHR 0x0D)), ts)
      else if c = CHR ''t'' then Some (LStr (app_unit acc (CHR 0x09)), ts)
      else if c = CHR ''u'' then Some (LHex acc [], ts)
      else None)"
| "step (LHex acc ds) ts c =
     (case hex_val c of
        None \<Rightarrow> None
      | Some d \<Rightarrow>
          if length ds < 3 then Some (LHex acc (ds @ [d]), ts)
          else Some (LStr (app_hex acc (ds @ [d])), ts))"
| "step (LLit rest tok) ts c =
     (case rest of
        [] \<Rightarrow> None
      | r # rs \<Rightarrow>
          if c \<noteq> r then None
          else if rs = [] then Some (LTop, ts @ [tok])
          else Some (LLit rs tok, ts))"
| "step LMinus ts c =
     (if c = CHR ''0'' then Some (LZero, ts)
      else if is_digit c then Some (LInt True (digit_val c), ts)
      else None)"
| "step LZero ts c =
     (if c = CHR ''.'' then Some (LDot, ts)
      else if c = CHR ''e'' \<or> c = CHR ''E'' then Some (LExp, ts)
      else step_top (ts @ [TNum (Some 0)]) c)"
| "step (LInt neg n) ts c =
     (if is_digit c then Some (LInt neg (10 * n + digit_val c), ts)
      else if c = CHR ''.'' then Some (LDot, ts)
      else if c = CHR ''e'' \<or> c = CHR ''E'' then Some (LExp, ts)
      else step_top (ts @ [int_token neg n]) c)"
| "step LDot ts c = (if is_digit c then Some (LFrac, ts) else None)"
| "step LFrac ts c =
     (if is_digit c then Some (LFrac, ts)
      else if c = CHR ''e'' \<or> c = CHR ''E'' then Some (LExp, ts)
      else step_top (ts @ [TNum None]) c)"
| "step LExp ts c =
     (if c = CHR ''+'' \<or> c = CHR ''-'' then Some (LExpSign, ts)
      else if is_digit c then Some (LExpDigits, ts)
      else None)"
| "step LExpSign ts c = (if is_digit c then Some (LExpDigits, ts) else None)"
| "step LExpDigits ts c =
     (if is_digit c then Some (LExpDigits, ts) else step_top (ts @ [TNum None]) c)"

text \<open>The end of the text: a number may end there, a string or a literal may not.\<close>

fun finish :: "scan_state \<Rightarrow> token list \<Rightarrow> token list option" where
  "finish LTop ts = Some ts"
| "finish LZero ts = Some (ts @ [TNum (Some 0)])"
| "finish (LInt neg n) ts = Some (ts @ [int_token neg n])"
| "finish LFrac ts = Some (ts @ [TNum None])"
| "finish LExpDigits ts = Some (ts @ [TNum None])"
| "finish _ ts = None"

fun scan :: "scan_state \<Rightarrow> token list \<Rightarrow> string \<Rightarrow> token list option" where
  "scan st ts [] = finish st ts"
| "scan st ts (c # cs) =
     (case step st ts c of None \<Rightarrow> None | Some (st', ts') \<Rightarrow> scan st' ts' cs)"

text \<open>The containers that are open while a value is read: an array with its elements
  so far, or an object with its members so far and the key whose value is awaited.\<close>

datatype frame =
    FArr "json list"
  | FObj "(string \<times> json) list" string

fun parse_value :: "frame list \<Rightarrow> token list \<Rightarrow> js_error + json"
  and parse_after :: "json \<Rightarrow> frame list \<Rightarrow> token list \<Rightarrow> js_error + json" where
  "parse_value st [] = Inl SyntaxError"
| "parse_value st (t # ts) =
     (case t of
        TStr None \<Rightarrow> Inl OutsideModel
      | TStr (Some s) \<Rightarrow> parse_after (JStr s) st ts
      | TNum None \<Rightarrow> Inl OutsideModel
      | TNum (Some n) \<Rightarrow> parse_after (JNum n) st ts
      | TTrue \<Rightarrow> parse_after (JBool True) st ts
      | TFalse \<Rightarrow> parse_after (JBool False) st ts
      | TNull \<Rightarrow> parse_after JNull st ts
      | TLBrack \<Rightarrow>
          (case ts of
             TRBrack # ts' \<Rightarrow> parse_after (JArr []) st ts'
           | _ \<Rightarrow> parse_value (FArr [] # st) ts)
      | TLBrace \<Rightarrow>
          (case ts of
             TRBrace # ts' \<Rightarrow> parse_after (JObj []) st ts'
           | TStr None # TColon # ts' \<Rightarrow> Inl OutsideModel
           | TStr (Some k) # TColon # ts' \<Rightarrow> parse_value (FObj [] k # st) ts'
           | _ \<Rightarrow> Inl SyntaxError)
      | _ \<Rightarrow> Inl SyntaxError)"
| "parse_after v [] ts = (if ts = [] then Inr v else Inl SyntaxError)"
| "parse_after v (FArr es # st) ts =
     (case ts of
        TComma # ts' \<Rightarrow> parse_value (FArr (es @ [v]) # st) ts'
      | TRBrack # ts' \<Rightarrow> parse_after (JArr (es @ [v])) st ts'
      | _ \<Rightarrow> Inl SyntaxError)"
| "parse_after v (FObj ms k # st) ts =
     (case ts of
        TComma # TStr None # TColon # ts' \<Rightarrow> Inl OutsideModel
      | TComma # TStr (Some k') # TColon # ts' \<Rightarrow> parse_value (FObj (obj_set ms k v) k' # st) ts'
      | TRBrace # ts' \<Rightarrow> parse_after (JObj (obj_set ms k v)) st ts'
      | _ \<Rightarrow> Inl SyntaxError)"

definition JSON_parse :: "string \<Rightarrow> js_error + json" where
  "JSON_parse s =
     (case scan LTop [] s of None \<Rightarrow> Inl SyntaxError | Some ts \<Rightarrow> parse_value [] ts)"

text \<open>A text that ends in three dots is never JSON. The scanner state \<open>LLit\<close> holds
  the rest of a literal; no literal contains a dot.\<close>

definition lit_ok :: "scan_state \<Rightarrow> bool" where
  "lit_ok st = (case st of LLit rest tok \<Rightarrow> CHR ''.'' \<notin> set rest | _ \<Rightarrow> True)"

section \<open>The PostHog service\<close>

subsection \<open>Configuration, clock and remote store\<close>

text \<open>\<^verbatim>\<open>process.env\<close>: a variable is a string or undefined.\<close>

record env =
  POSTHOG_API_KEY :: "string option"
  POSTHOG_PERSONAL_API_KEY :: "string option"
  POSTHOG_HOST :: "string option"
  POSTHOG_PROJECT_ID :: "string option"

text \<open>\<^verbatim>\<open>process.env.X || fallback\<close>: the empty string is falsy.\<close>

definition env_or :: "string option \<Rightarrow> string \<Rightarrow> string" where
  "env_or v d = (case v of None \<Rightarrow> d | Some x \<Rightarrow> if x = [] then d else x)"

text \<open>What \<^verbatim>\<open>fetch\<close> does on one request: it rejects, or resolves to a response with
  its \<^verbatim>\<open>ok\<close> flag, its status, the outcome of \<^verbatim>\<open>response.text()\<close> and the outcome of
  \<^verbatim>\<open>response.json()\<close>.\<close>

datatype fetch_outcome =
    Rejected
  | Response bool int "js_error + string" "js_error + json"

text \<open>
  What a call of the service reads from outside, and the functions of the runtime that
  the model leaves open. \<open>clock\<close> is the time value of \<^verbatim>\<open>Date.now()\<close> and \<^verbatim>\<open>new Date()\<close>;
  \<open>iso_string\<close> is \<^verbatim>\<open>toISOString\<close> on a valid time value; \<open>date_value\<close> is the time value
  of \<^verbatim>\<open>new Date(v)\<close>, \<open>None\<close> for an invalid date; \<open>exceeds_zero\<close> is \<^verbatim>\<open>v > 0\<close> on a value
  that is not a number, a boolean or \<^verbatim>\<open>null\<close> (the comparison goes through \<^verbatim>\<open>ToNumber\<close>);
  \<open>capture_throws\<close> says whether \<^verbatim>\<open>client.capture\<close> raises; \<open>query_api\<close> and \<open>events_api\<close>
  are the answers of the two endpoints of the remote store. Every theorem below holds
  for all values of these fields.
\<close>

record world =
  environment :: env
  clock :: int
  iso_string :: "int \<Rightarrow> string"
  date_value :: "json \<Rightarrow> int option"
  exceeds_zero :: "json \<Rightarrow> bool"
  capture_throws :: bool
  query_api :: fetch_outcome
  events_api :: fetch_outcome

subsection \<open>State of the service\<close>

record TrackedEvent =
  distinctId :: string
  eventName :: string
  properties :: "(string \<times> json) list"
  timestamp :: int

text \<open>The argument of \<^verbatim>\<open>client.capture\<close>.\<close>

record eventData =
  ev_distinctId :: string
  ev_event :: string
  ev_properties :: "(string \<times> json) list"

text \<open>\<open>eventLog\<close> is the field of the class; \<open>captured\<close> lists what \<^verbatim>\<open>client.capture\<close>
  accepted, oldest first.\<close>

record service =
  eventLog :: "TrackedEvent list"
  captured :: "eventData list"

definition MAX_LOG_SIZE :: nat where
  "MAX_LOG_SIZE = 100"

definition placeholder_key :: string where
  "placeholder_key = ''phc_your_api_key_here''"

text \<open>\<^verbatim>\<open>xs.slice(start)\<close> for an integral \<open>start\<close>; \<^verbatim>\<open>-0\<close> is \<open>0\<close>.\<close>

definition slice_from :: "int \<Rightarrow> 'a list \<Rightarrow> 'a list" where
  "slice_from start xs =
     (let n = int (length xs);
          k = (if start < 0 then max (n + start) 0 else min start n)
      in drop (nat k) xs)"

text \<open>\<^verbatim>\<open>{ ...props, k1: v1, k2: v2, ... }\<close> and repeated \<^verbatim>\<open>props[k] = v\<close>.\<close>

definition set_all :: "(string \<times> json) list \<Rightarrow> (string \<times> json) list \<Rightarrow> (string \<times> json) list" where
  "set_all props kvs = foldl (\<lambda>acc kv. obj_set acc (fst kv) (snd kv)) props kvs"

definition track ::
  "world \<Rightarrow> string \<Rightarrow> string \<Rightarrow> (string \<times> json) list option \<Rightarrow> service \<Rightarrow> service" where
  "track w did name props s =
     (let apiKey = env_or (POSTHOG_API_KEY (environment w)) placeholder_key
      in if apiKey = [] \<or> apiKey = placeholder_key then s
         else
           let data = \<lparr>ev_distinctId = did, ev_event = name,
                       ev_properties =
                         set_all (case props of None \<Rightarrow> [] | Some ps \<Rightarrow> ps)
                           [(''timestamp'', JStr (iso_string w (clock w))),
                            (''$lib'', JStr ''posthog-node''),
                            (''$lib_version'', JStr ''4.0.0'')]\<rparr>;
               s1 = (if capture_throws w then s else s\<lparr>captured := captured s @ [data]\<rparr>);
               trackedEvent = \<lparr>distinctId = did, eventName = name,
                               properties = (case props of None \<Rightarrow> [] | Some ps \<Rightarrow> ps),
                               timestamp = clock w\<rparr>;
               pushed = eventLog s1 @ [trackedEvent]
           in s1\<lparr>eventLog :=
                   (if length pushed > MAX_LOG_SIZE
                    then slice_from (- int MAX_LOG_SIZE) pushed else pushed)\<rparr>)"

text \<open>\<^verbatim>\<open>getRecentEvents(limit = 50)\<close>; the \<^verbatim>\<open>map\<close> copies each entry field by field.\<close>

definition getRecentEvents :: "int option \<Rightarrow> service \<Rightarrow> TrackedEvent list" where
  "getRecentEvents limit s =
     (let l = (case limit of None \<Rightarrow> 50 | Some n \<Rightarrow> n)
      in map (\<lambda>e. \<lparr>distinctId = distinctId e, eventName = eventName e,
                    properties = properties e, timestamp = timestamp e\<rparr>)
           (rev (slice_from (- l) (eventLog s))))"

definition clearEventLog :: "service \<Rightarrow> service" where
  "clearEventLog s = s\<lparr>eventLog := []\<rparr>"

subsection \<open>Sanitizers\<close>

definition REDACTED :: json where
  "REDACTED = JStr ''[REDACTED]''"

text \<open>\<^verbatim>\<open>if (sanitized[field]) sanitized[field] = '[REDACTED]'\<close>.\<close>

definition redact_field :: "(string \<times> json) list \<Rightarrow> string \<Rightarrow> (string \<times> json) list" where
  "redact_field sanitized field =
     (if truthy_opt (obj_get sanitized field) then obj_set sanitized field REDACTED
      else sanitized)"

text \<open>The body of both \<^verbatim>\<open>sanitizeBody\<close> methods; they differ in the list of fields.\<close>

definition sanitizeBody_with :: "string list \<Rightarrow> json option \<Rightarrow> js_error + json" where
  "sanitizeBody_with sensitiveFields body =
     (case body of
        None \<Rightarrow> Inr JNull
      | Some b \<Rightarrow>
          if \<not> truthy b then Inr JNull
          else
            let sanitized = foldl redact_field (own_props b) sensitiveFields;
                bodyStr = JSON_stringify (JObj sanitized)
            in if length bodyStr > 1000 then JSON_parse (take 1000 bodyStr @ ''...'')
               else Inr (JObj sanitized))"

definition sensitiveFields :: "string list" where
  "sensitiveFields = [''password'', ''token'', ''secret'', ''apiKey'', ''apikey'', ''access_token'']"

definition sanitizeBody :: "json option \<Rightarrow> js_error + json" where
  "sanitizeBody body = sanitizeBody_with sensitiveFields body"

definition sanitizeResponse :: "json option \<Rightarrow> js_error + json" where
  "sanitizeResponse data =
     (case data of
        None \<Rightarrow> Inr JNull
      | Some d \<Rightarrow>
          if \<not> truthy d then Inr JNull
          else
            let dataStr = JSON_stringify d
            in if length dataStr > 2000
               then (case JSON_parse (take 2000 dataStr @ ''...'') of
                       Inl e \<Rightarrow> Inl e
                     | Inr preview \<Rightarrow>
                         Inr (JObj [(''_truncated'', JBool True),
                                    (''_size'', JNum (int (length dataStr))),
                                    (''preview'', preview)]))
               else Inr d)"

text \<open>The sanitizer of the interceptor (\<^verbatim>\<open>PosthogInterceptor.sanitizeBody\<close>) has a shorter
  list of fields.\<close>

definition interceptorFields :: "string list" where
  "interceptorFields = [''password'', ''token'', ''secret'', ''apiKey'', ''apikey'']"

definition interceptor_sanitizeBody :: "json option \<Rightarrow> js_error + json" where
  "interceptor_sanitizeBody body = sanitizeBody_with interceptorFields body"

text \<open>\<^verbatim>\<open>String.prototype.toLowerCase\<close> on code units below 256.\<close>

definition lower_char :: "char \<Rightarrow> char" where
  "lower_char c =
     (let n = (of_char c :: nat)
      in if (65 \<le> n \<and> n \<le> 90) \<or> (192 \<le> n \<and> n \<le> 222 \<and> n \<noteq> 215)
         then char_of (n + 32) else c)"

definition toLowerCase :: "string \<Rightarrow> string" where
  "toLowerCase s = map lower_char s"

text \<open>What the sanitizers do to one top-level property, stated on its own: it is
  replaced when its key is in the list and its value is truthy.\<close>

definition redact_entry :: "string list \<Rightarrow> string \<times> json \<Rightarrow> string \<times> json" where
  "redact_entry fs kv = (if fst kv \<in> set fs \<and> truthy (snd kv) then (fst kv, REDACTED) else kv)"

subsection \<open>Structural diff\<close>

text \<open>The object literals that \<^verbatim>\<open>deepDiff\<close> and \<^verbatim>\<open>calculateChanges\<close> store in a diff:
  \<^verbatim>\<open>{ added: v }\<close>, \<^verbatim>\<open>{ removed: v }\<close> and \<^verbatim>\<open>{ previous: p, current: c }\<close>.\<close>

definition Added :: "json \<Rightarrow> json" where
  "Added v = JObj [(''added'', v)]"

definition Removed :: "json \<Rightarrow> json" where
  "Removed v = JObj [(''removed'', v)]"

definition Changed :: "json \<Rightarrow> json \<Rightarrow> json" where
  "Changed p c = JObj [(''previous'', p), (''current'', c)]"

text \<open>\<^verbatim>\<open>typeof v === 'object' && v !== null && !Array.isArray(v)\<close>.\<close>

definition is_plain_object :: "json \<Rightarrow> bool" where
  "is_plain_object v = (case v of JObj kvs \<Rightarrow> True | _ \<Rightarrow> False)"

text \<open>\<^verbatim>\<open>new Set([...Object.keys(prev || {}), ...Object.keys(curr || {})])\<close>: each key
  once, at its first position.\<close>

definition allKeys :: "json \<Rightarrow> json \<Rightarrow> string list" where
  "allKeys prev cur =
     rev (remdups (rev (object_keys (if truthy prev then prev else JObj [])
                        @ object_keys (if truthy cur then cur else JObj []))))"

text \<open>The own property that \<^verbatim>\<open>diff[key] = v\<close> adds to \<^verbatim>\<open>diff\<close>, an object created with
  \<^verbatim>\<open>{}\<close>, for a key that was not assigned before: none for the key \<^verbatim>\<open>__proto__\<close>.\<close>

definition diff_entry :: "string \<Rightarrow> json \<Rightarrow> (string \<times> json) list" where
  "diff_entry key v = obj_assign [] key v"

text \<open>
  \<^verbatim>\<open>deepDiff(prev, curr)\<close>. The result lists the own properties of the object \<^verbatim>\<open>diff\<close>, which
  are what \<^verbatim>\<open>Object.keys(diff)\<close> counts and what is serialized; every key is assigned at
  most once, in the order of \<open>allKeys\<close>. \<^verbatim>\<open>JSON.stringify(undefined)\<close> is \<^verbatim>\<open>undefined\<close>, so
  two absent values never differ.

  Where a key is an own property of one argument and the name of a method that the other
  inherits, the program reads a function on that side and records the pair
  \<^verbatim>\<open>{ previous, current }\<close>; the model reads \<^verbatim>\<open>undefined\<close> and records \<^verbatim>\<open>{ added }\<close> or
  \<^verbatim>\<open>{ removed }\<close>. Both record an entry: a function never serializes to the text of a
  JSON value. So the own keys of the result are those of the program.
\<close>

function deepDiff :: "json \<Rightarrow> json \<Rightarrow> (string \<times> json) list" where
  "deepDiff prev cur =
     concat (map (\<lambda>key.
        (case (opt_get prev key, opt_get cur key) of
           (None, None) \<Rightarrow> []
         | (None, Some curVal) \<Rightarrow> diff_entry key (Added curVal)
         | (Some prevVal, None) \<Rightarrow> diff_entry key (Removed prevVal)
         | (Some prevVal, Some curVal) \<Rightarrow>
             if JSON_stringify prevVal \<noteq> JSON_stringify curVal then
               if is_plain_object prevVal \<and> is_plain_object curVal then
                 (let nestedDiff = deepDiff prevVal curVal
                  in if length nestedDiff > 0 then diff_entry key (JObj nestedDiff) else [])
               else diff_entry key (Changed prevVal curVal)
             else []))
       (allKeys prev cur))"
  by pat_completeness auto

termination
proof -
  have sz_member: "size (v::json) < Suc (size_list (size_prod (\<lambda>_. 0) size) kvs)"
    if "map_of kvs k = Some v" for kvs :: "(string \<times> json) list" and k v
    using that by (induction kvs) (auto split: if_splits)
  have sz_elem: "size (x::json) < Suc (size_list size xs)" if "x \<in> set xs" for x xs
    using that by (induction xs) auto
  have smaller: "size v < size prev"
    if get: "opt_get prev key = Some v" and obj: "is_plain_object v" for prev key v
  proof (cases prev)
    case (JObj kvs)
    with get show ?thesis using sz_member [of kvs key v] by simp
  next
    case (JArr xs)
    with get obj have "map_of (zip (index_keys (length xs)) xs) key = Some v"
      by (auto simp: is_plain_object_def split: if_splits)
    then have "v \<in> set xs" by (meson in_set_zipE map_of_SomeD)
    with JArr show ?thesis using sz_elem [of v xs] by simp
  next
    case (JStr s)
    with get obj have "map_of (zip (index_keys (length s)) (map (\<lambda>c. JStr [c]) s)) key = Some v"
      by (auto simp: is_plain_object_def split: if_splits)
    then have "v \<in> set (map (\<lambda>c. JStr [c]) s)" by (meson in_set_zipE map_of_SomeD)
    with obj show ?thesis by (auto simp: is_plain_object_def)
  next
    case JNull
    with get show ?thesis by simp
  next
    case (JBool b)
    with get show ?thesis by simp
  next
    case (JNum n)
    with get show ?thesis by simp
  qed
  show ?thesis
    by (relation "measure (\<lambda>(prev, cur). size prev)") (auto simp: smaller)
qed

declare deepDiff.simps [simp del]

subsection \<open>Change analysis\<close>

text \<open>The two bodies that \<^verbatim>\<open>calculateChanges\<close> reads from each of its arguments.\<close>

record bodies =
  requestBody :: "json option"
  responseBody :: "json option"

text \<open>A previous call as \<^verbatim>\<open>getPreviousCallFromPostHog\<close> returns it. \<open>prev_timestamp\<close> is
  the time value of the \<^verbatim>\<open>Date\<close>, \<open>None\<close> for an invalid date.\<close>

record CallRecord = bodies +
  prev_timestamp :: "int option"
  prev_userId :: "json option"
  prev_eventId :: "json option"
  prev_statusCode :: "json option"
  prev_duration :: "json option"
  prev_method :: "json option"
  prev_path :: "json option"
  prev_url :: "json option"

record change_result =
  hasChanges :: bool
  changes :: "(string \<times> json) list"
  summary :: string

text \<open>One of the two comparisons of \<^verbatim>\<open>calculateChanges\<close>: the entry it adds to \<^verbatim>\<open>changes\<close>
  under \<open>key\<close> and the description it pushes on \<^verbatim>\<open>changeList\<close>. The source writes the
  comparison out twice, for \<^verbatim>\<open>request_body\<close> and for \<^verbatim>\<open>response_body\<close>.\<close>

definition compare_bodies ::
  "string \<Rightarrow> string \<Rightarrow> json option \<Rightarrow> json option \<Rightarrow> (string \<times> json) list \<times> string list" where
  "compare_bodies key label p c =
     (if truthy_opt p \<and> truthy_opt c then
        (let d = deepDiff (the p) (the c)
         in if length d > 0 then ([(key, JObj d)], [label @ '' changed'']) else ([], []))
      else if truthy_opt c \<and> \<not> truthy_opt p then ([(key, Added (the c))], [label @ '' added''])
      else if truthy_opt p \<and> \<not> truthy_opt c then
        ([(key, Removed (the p))], [label @ '' removed''])
      else ([], []))"

definition calculateChanges :: "'a bodies_scheme option \<Rightarrow> 'b bodies_scheme \<Rightarrow> change_result" where
  "calculateChanges previous current =
     (case previous of
        None \<Rightarrow> \<lparr>hasChanges = False, changes = [], summary = ''First call to this endpoint''\<rparr>
      | Some prev \<Rightarrow>
          let req = compare_bodies ''request_body'' ''Request body''
                      (requestBody prev) (requestBody current);
              res = compare_bodies ''response_body'' ''Response body''
                      (responseBody prev) (responseBody current);
              changes = fst req @ fst res;
              changeList = snd req @ snd res
          in \<lparr>hasChanges = length changes > 0, changes = changes,
               summary = (if length changeList > 0 then join ''; '' changeList
                          else ''No changes detected'')\<rparr>)"

text \<open>The change descriptions of one pair of bodies, in the words of the specification:
  changed when both are present and differ, added when only the current one is present,
  removed when only the previous one is.\<close>

definition body_change :: "string \<Rightarrow> json option \<Rightarrow> json option \<Rightarrow> string list" where
  "body_change label p c =
     (case (truthy_opt p, truthy_opt c) of
        (True, True) \<Rightarrow> (if deepDiff (the p) (the c) = [] then [] else [label @ '' changed''])
      | (False, True) \<Rightarrow> [label @ '' added'']
      | (True, False) \<Rightarrow> [label @ '' removed'']
      | (False, False) \<Rightarrow> [])"

subsection \<open>Event store client\<close>

text \<open>\<^verbatim>\<open>apiKey.match(/phc_([^_]+)/)\<close>: the leftmost place where \<^verbatim>\<open>phc_\<close> is followed by a
  code unit other than an underscore; the group is the longest run of such code units.\<close>

fun match_phc :: "string \<Rightarrow> string option" where
  "match_phc [] = None"
| "match_phc (c # cs) =
     (let grp = takeWhile (\<lambda>x. x \<noteq> CHR ''_'') (drop 4 (c # cs))
      in if take 4 (c # cs) = ''phc_'' \<and> grp \<noteq> [] then Some grp else match_phc cs)"

text \<open>The test \<^verbatim>\<open>/^\d+$/\<close>.\<close>

definition all_digits :: "string \<Rightarrow> bool" where
  "all_digits s = (s \<noteq> [] \<and> list_all is_digit s)"

definition getProjectId :: "world \<Rightarrow> string \<Rightarrow> string option" where
  "getProjectId w apiKey =
     (let extracted =
            (case match_phc apiKey of
               None \<Rightarrow> None
             | Some grp \<Rightarrow> if all_digits grp then Some grp else None)
      in case POSTHOG_PROJECT_ID (environment w) of
           None \<Rightarrow> extracted
         | Some projectId \<Rightarrow> if projectId \<noteq> [] then Some projectId else extracted)"

text \<open>The two requests the client sends, by their parameters: host, project id, key,
  method and path; the events endpoint also takes the \<^verbatim>\<open>distinct_id\<close> filter.\<close>

datatype remote_call =
    QueryCall string string string string string
  | EventsCall string string string string string "string option"

text \<open>\<^verbatim>\<open>v.k\<close> raises \<^verbatim>\<open>TypeError\<close> on \<^verbatim>\<open>null\<close> and \<^verbatim>\<open>undefined\<close>; \<^verbatim>\<open>v?.k\<close> is undefined there.\<close>

definition get_prop :: "json option \<Rightarrow> string \<Rightarrow> js_error + json option" where
  "get_prop v k =
     (case v of None \<Rightarrow> Inl TypeError | Some JNull \<Rightarrow> Inl TypeError | Some x \<Rightarrow> Inr (opt_get x k))"

definition opt_chain :: "json option \<Rightarrow> string \<Rightarrow> json option" where
  "opt_chain v k = (case v of None \<Rightarrow> None | Some JNull \<Rightarrow> None | Some x \<Rightarrow> opt_get x k)"

text \<open>\<^verbatim>\<open>v || d\<close> with a defined \<open>d\<close>.\<close>

definition or_else :: "json option \<Rightarrow> json \<Rightarrow> json" where
  "or_else v d = (case v of None \<Rightarrow> d | Some x \<Rightarrow> if truthy x then x else d)"

text \<open>\<^verbatim>\<open>v > 0\<close>.\<close>

definition gt_zero :: "world \<Rightarrow> json option \<Rightarrow> bool" where
  "gt_zero w v =
     (case v of
        None \<Rightarrow> False
      | Some JNull \<Rightarrow> False
      | Some (JBool b) \<Rightarrow> b
      | Some (JNum n) \<Rightarrow> n > 0
      | Some x \<Rightarrow> exceeds_zero w x)"

text \<open>\<^verbatim>\<open>new Date(t || Date.now())\<close> as a time value.\<close>

definition date_or_now :: "world \<Rightarrow> json option \<Rightarrow> int option" where
  "date_or_now w t =
     (case t of None \<Rightarrow> Some (clock w) | Some x \<Rightarrow> if truthy x then date_value w x else Some (clock w))"

text \<open>The part of \<^verbatim>\<open>getPreviousCallFromPostHog\<close> that reads the answer of the query
  endpoint, from \<^verbatim>\<open>if (data.results && data.results.length > 0)\<close> on.\<close>

definition previous_from_query :: "world \<Rightarrow> json \<Rightarrow> js_error + CallRecord option" where
  "previous_from_query w data =
     (case get_prop (Some data) ''results'' of
        Inl e \<Rightarrow> Inl e
      | Inr results \<Rightarrow>
          if truthy_opt results \<and> gt_zero w (opt_chain results ''length'') then
            let result = opt_chain results ''0'';
                eventData = (case result of Some (JArr xs) \<Rightarrow> opt_get (JArr xs) ''0'' | _ \<Rightarrow> result);
                props = or_else (opt_chain eventData ''properties'') (or_else eventData (JObj []))
            in Inr (Some
                 \<lparr>requestBody = opt_get props ''request_body'',
                  responseBody = opt_get props ''response_body'',
                  prev_timestamp =
                    date_or_now w (js_or (opt_get props ''timestamp'') (opt_chain eventData ''timestamp'')),
                  prev_userId = js_or (opt_get props ''user_id'') (opt_chain eventData ''distinct_id''),
                  prev_eventId = js_or (opt_chain eventData ''uuid'') (opt_chain eventData ''id''),
                  prev_statusCode = opt_get props ''status_code'',
                  prev_duration = opt_get props ''duration_ms'',
                  prev_method = opt_get props ''method'',
                  prev_path = opt_get props ''path'',
                  prev_url = opt_get props ''url''\<rparr>)
          else Inr None)"

text \<open>The part of \<^verbatim>\<open>tryEventsApiEndpoint\<close> that reads the answer of the events endpoint,
  from \<^verbatim>\<open>let events = []\<close> on. \<^verbatim>\<open>event.properties\<close> is a plain property access.\<close>

definition previous_from_events :: "world \<Rightarrow> json \<Rightarrow> js_error + CallRecord option" where
  "previous_from_events w data =
     (case get_prop (Some data) ''results'' of
        Inl e \<Rightarrow> Inl e
      | Inr results \<Rightarrow>
          let events =
                (if truthy_opt results then results
                 else if (case data of JArr xs \<Rightarrow> True | _ \<Rightarrow> False) then Some data
                 else if truthy_opt (opt_get data ''events'') then opt_get data ''events''
                 else Some (JArr []))
          in if gt_zero w (opt_chain events ''length'') then
               let event = opt_chain events ''0''
               in case get_prop event ''properties'' of
                    Inl e \<Rightarrow> Inl e
                  | Inr event_properties \<Rightarrow>
                      let props = or_else event_properties (or_else (opt_chain event ''event'') (JObj []))
                      in Inr (Some
                           \<lparr>requestBody = opt_get props ''request_body'',
                            responseBody = opt_get props ''response_body'',
                            prev_timestamp =
                              date_or_now w
                                (js_or (opt_chain event ''timestamp'') (opt_chain event ''created_at'')),
                            prev_userId =
                              js_or (opt_chain event ''distinct_id'') (opt_chain event ''user_id''),
                            prev_eventId =
                              js_or (opt_chain event ''uuid'')
                                (js_or (opt_chain event ''id'') (opt_chain event ''event_id'')),
                            prev_statusCode = opt_get props ''status_code'',
                            prev_duration = opt_get props ''duration_ms'',
                            prev_method = opt_get props ''method'',
                            prev_path = opt_get props ''path'',
                            prev_url = opt_get props ''url''\<rparr>)
             else Inr None)"

text \<open>\<^verbatim>\<open>try { return body } catch (error) { log; return null }\<close>.\<close>

definition catch_null :: "js_error + 'a option \<Rightarrow> js_error + 'a option" where
  "catch_null r = (case r of Inl e \<Rightarrow> Inr None | Inr x \<Rightarrow> Inr x)"

text \<open>The body of the \<^verbatim>\<open>try\<close> block of \<^verbatim>\<open>tryEventsApiEndpoint\<close>.\<close>

definition events_attempt :: "world \<Rightarrow> js_error + CallRecord option" where
  "events_attempt w =
     (case events_api w of
        Rejected \<Rightarrow> Inl FetchError
      | Response ok status text body \<Rightarrow>
          if \<not> ok then (case text of Inl e \<Rightarrow> Inl e | Inr errorText \<Rightarrow> Inr None)
          else (case body of Inl e \<Rightarrow> Inl e | Inr data \<Rightarrow> previous_from_events w data))"

text \<open>Both client functions return their result together with the requests they sent,
  in order.\<close>

definition tryEventsApiEndpoint ::
  "world \<Rightarrow> string \<Rightarrow> string \<Rightarrow> string \<Rightarrow> string \<Rightarrow> string \<Rightarrow> string option
     \<Rightarrow> (js_error + CallRecord option) \<times> remote_call list" where
  "tryEventsApiEndpoint w host projectId apiKey method path userId =
     (catch_null (events_attempt w),
      [EventsCall host projectId apiKey method path
         (case userId of
            None \<Rightarrow> None
          | Some u \<Rightarrow> if u \<noteq> [] \<and> u \<noteq> ''anonymous'' then Some u else None)])"

text \<open>\<^verbatim>\<open>personalApiKey || projectApiKey\<close>.\<close>

definition key_or :: "string option \<Rightarrow> string option \<Rightarrow> string option" where
  "key_or a b = (case a of None \<Rightarrow> b | Some x \<Rightarrow> if x = [] then b else a)"

text \<open>The body of the \<^verbatim>\<open>try\<close> block of \<^verbatim>\<open>getPreviousCallFromPostHog\<close>.\<close>

definition query_attempt ::
  "world \<Rightarrow> string \<Rightarrow> string \<Rightarrow> string option \<Rightarrow> (js_error + CallRecord option) \<times> remote_call list" where
  "query_attempt w method path userId =
     (let apiKey = key_or (POSTHOG_PERSONAL_API_KEY (environment w)) (POSTHOG_API_KEY (environment w));
          host = env_or (POSTHOG_HOST (environment w)) ''https://app.posthog.com''
      in case apiKey of
           None \<Rightarrow> (Inr None, [])
         | Some key \<Rightarrow>
             if key = [] \<or> key = placeholder_key then (Inr None, [])
             else
               (case getProjectId w key of
                  None \<Rightarrow> (Inr None, [])
                | Some projectId \<Rightarrow>
                    (case query_api w of
                       Rejected \<Rightarrow> (Inl FetchError, [QueryCall host projectId key method path])
                     | Response ok status text body \<Rightarrow>
                         if \<not> ok then
                           (case text of
                              Inl e \<Rightarrow> (Inl e, [QueryCall host projectId key method path])
                            | Inr errorText \<Rightarrow>
                                (fst (tryEventsApiEndpoint w host projectId key method path userId),
                                 QueryCall host projectId key method path
                                   # snd (tryEventsApiEndpoint w host projectId key method path userId)))
                         else
                           (case body of
                              Inl e \<Rightarrow> (Inl e, [QueryCall host projectId key method path])
                            | Inr data \<Rightarrow>
                                (previous_from_query w data,
                                 [QueryCall host projectId key method path])))))"

definition getPreviousCallFromPostHog ::
  "world \<Rightarrow> string \<Rightarrow> string \<Rightarrow> string option \<Rightarrow> (js_error + CallRecord option) \<times> remote_call list" where
  "getPreviousCallFromPostHog w method path userId =
     (catch_null (fst (query_attempt w method path userId)),
      snd (query_attempt w method path userId))"

subsection \<open>Write-request tracker\<close>

text \<open>Sequencing of steps that may raise.\<close>

definition and_then :: "js_error + 'a \<Rightarrow> ('a \<Rightarrow> js_error + 'b) \<Rightarrow> js_error + 'b" where
  "and_then r f = (case r of Inl e \<Rightarrow> Inl e | Inr x \<Rightarrow> f x)"

text \<open>A property whose value may be undefined. An event is serialized when it is sent,
  and a property that holds \<^verbatim>\<open>undefined\<close> is left out there; the model leaves it out
  from the start.\<close>

definition opt_entry :: "string \<Rightarrow> json option \<Rightarrow> (string \<times> json) list" where
  "opt_entry k v = (case v of None \<Rightarrow> [] | Some x \<Rightarrow> [(k, x)])"

text \<open>The argument of \<^verbatim>\<open>trackWriteRequestWithComparison\<close>.\<close>

record write_details = bodies +
  wd_method :: string
  wd_path :: string
  wd_url :: string
  wd_statusCode :: int
  wd_userId :: string
  wd_duration :: int
  wd_sessionId :: "string option"

text \<open>The assignments under \<^verbatim>\<open>if (previousCall)\<close>, in the order of evaluation;
  \<^verbatim>\<open>toISOString\<close> raises \<^verbatim>\<open>RangeError\<close> on an invalid date.\<close>

definition previous_call_props :: "world \<Rightarrow> CallRecord \<Rightarrow> js_error + (string \<times> json) list" where
  "previous_call_props w p =
     and_then (sanitizeBody (requestBody p)) (\<lambda>request_body.
     and_then (sanitizeResponse (responseBody p)) (\<lambda>response_body.
       case prev_timestamp p of
         None \<Rightarrow> Inl RangeError
       | Some t \<Rightarrow>
           Inr ([(''previous_call'',
                  JObj ([(''request_body'', request_body),
                         (''response_body'', response_body),
                         (''timestamp'', JStr (iso_string w t))]
                        @ opt_entry ''status_code'' (prev_statusCode p)
                        @ opt_entry ''duration_ms'' (prev_duration p)
                        @ opt_entry ''method'' (prev_method p)
                        @ opt_entry ''path'' (prev_path p)
                        @ opt_entry ''url'' (prev_url p)
                        @ opt_entry ''user_id'' (prev_userId p)
                        @ opt_entry ''event_id'' (prev_eventId p))),
                 (''previous_request_body'', request_body),
                 (''previous_response_body'', response_body),
                 (''previous_timestamp'', JStr (iso_string w t))]
                @ opt_entry ''previous_status_code'' (prev_statusCode p)
                @ opt_entry ''previous_duration_ms'' (prev_duration p)
                @ (if truthy_opt (prev_eventId p)
                   then opt_entry ''previous_event_id'' (prev_eventId p) else []))))"

text \<open>The properties of the event that \<^verbatim>\<open>trackWriteRequestWithComparison\<close> hands to
  \<^verbatim>\<open>track\<close>, given the previous call it retrieved.\<close>

definition write_properties ::
  "world \<Rightarrow> write_details \<Rightarrow> CallRecord option \<Rightarrow> js_error + (string \<times> json) list" where
  "write_properties w details previousCall =
     (let analysis = calculateChanges previousCall details
      in and_then (if truthy_opt (requestBody details)
                   then and_then (sanitizeBody (requestBody details))
                          (\<lambda>b. Inr [(''request_body'', b)])
                   else Inr []) (\<lambda>request.
         and_then (if truthy_opt (responseBody details)
                   then and_then (sanitizeResponse (responseBody details))
                          (\<lambda>b. Inr [(''response_body'', b)])
                   else Inr []) (\<lambda>response.
         and_then (case previousCall of None \<Rightarrow> Inr [] | Some p \<Rightarrow> previous_call_props w p)
           (\<lambda>previous.
              Inr (set_all
                     [(''method'', JStr (wd_method details)),
                      (''path'', JStr (wd_path details)),
                      (''url'', JStr (wd_url details)),
                      (''status_code'', JNum (wd_statusCode details)),
                      (''duration_ms'', JNum (wd_duration details)),
                      (''timestamp'', JStr (iso_string w (clock w)))]
                     (request @ response @ previous
                      @ (if hasChanges analysis
                         then [(''changes'', JObj (changes analysis)),
                               (''change_summary'', JStr (summary analysis)),
                               (''is_first_call'', JBool False)]
                         else [(''is_first_call'',
                                JBool (case previousCall of None \<Rightarrow> True | Some p \<Rightarrow> False))])
                      @ (case wd_sessionId details of
                           None \<Rightarrow> []
                         | Some sid \<Rightarrow> if sid \<noteq> [] then [(''$session_id'', JStr sid)] else [])
                      @ (if wd_userId details \<noteq> [] \<and> wd_userId details \<noteq> ''anonymous''
                         then [(''user_id'', JStr (wd_userId details))] else [])))))))"

text \<open>The result is the new state of the service, or the exception that ended the call
  (the state is then unchanged: \<^verbatim>\<open>track\<close> is the last step), and the requests sent to the
  remote store.\<close>

definition trackWriteRequestWithComparison ::
  "world \<Rightarrow> write_details \<Rightarrow> service \<Rightarrow> (js_error + service) \<times> remote_call list" where
  "trackWriteRequestWithComparison w details s =
     (let got = getPreviousCallFromPostHog w (wd_method details) (wd_path details)
                  (Some (wd_userId details));
          previousCall = (case fst got of Inl e \<Rightarrow> None | Inr r \<Rightarrow> r)
      in (and_then (write_properties w details previousCall)
            (\<lambda>props. Inr (track w (wd_userId details) ''api_write_request'' (Some props) s)),
          snd got))"

subsection \<open>Error funnel\<close>

definition sanitizeHeaders_with :: "string list \<Rightarrow> json option \<Rightarrow> json" where
  "sanitizeHeaders_with sensitiveHeaders headers =
     (case headers of
        None \<Rightarrow> JNull
      | Some h \<Rightarrow>
          if \<not> truthy h then JNull
          else JObj (foldl (\<lambda>sanitized kv.
                       obj_assign sanitized (fst kv)
                         (if toLowerCase (fst kv) \<in> set sensitiveHeaders then REDACTED
                          else snd kv))
                     [] (own_props h)))"

definition sanitizeHeaders :: "json option \<Rightarrow> json" where
  "sanitizeHeaders headers =
     sanitizeHeaders_with [''authorization'', ''cookie'', ''x-api-key'', ''x-session-id''] headers"

definition interceptor_sanitizeHeaders :: "json option \<Rightarrow> json" where
  "interceptor_sanitizeHeaders headers =
     sanitizeHeaders_with [''authorization'', ''cookie'', ''x-api-key''] headers"

text \<open>The argument of \<^verbatim>\<open>trackError\<close>.\<close>

record error_details =
  errorName :: string
  errorMessage :: "string option"
  errorStack :: "string option"
  ed_userId :: string
  ed_sessionId :: "string option"
  ed_context :: "(string \<times> json) list option"
  errorType :: "string option"

text \<open>\<^verbatim>\<open>sanitizedContext\<close> of \<^verbatim>\<open>trackError\<close>.\<close>

definition sanitize_context :: "(string \<times> json) list \<Rightarrow> js_error + (string \<times> json) list" where
  "sanitize_context ctx =
     (let c1 = (if truthy_opt (obj_get ctx ''requestHeaders'')
                then obj_set ctx ''requestHeaders'' (sanitizeHeaders (obj_get ctx ''requestHeaders''))
                else ctx)
      in if truthy_opt (obj_get c1 ''requestBody'')
         then and_then (sanitizeBody (obj_get c1 ''requestBody''))
                (\<lambda>b. Inr (obj_set c1 ''requestBody'' b))
         else Inr c1)"

definition trackError :: "world \<Rightarrow> error_details \<Rightarrow> service \<Rightarrow> js_error + service" where
  "trackError w details s =
     (let posthogHost = env_or (POSTHOG_HOST (environment w)) ''https://app.posthog.com'';
          apiKey = env_or (POSTHOG_API_KEY (environment w)) placeholder_key
      in and_then (case ed_context details of
                     None \<Rightarrow> Inr []
                   | Some ctx \<Rightarrow>
                       and_then (sanitize_context ctx) (\<lambda>c. Inr [(''context'', JObj c)]))
           (\<lambda>context.
              Inr (track w (ed_userId details) ''error_occurred''
                     (Some (set_all
                        ([(''error_name'', JStr (errorName details))]
                         @ opt_entry ''error_message'' (map_option JStr (errorMessage details))
                         @ [(''error_type'',
                             JStr (case errorType details of
                                     None \<Rightarrow> ''backend_error''
                                   | Some t \<Rightarrow> if t = [] then ''backend_error'' else t)),
                            (''timestamp'', JStr (iso_string w (clock w)))])
                        ((case errorStack details of
                            None \<Rightarrow> []
                          | Some st \<Rightarrow> if st \<noteq> [] then [(''error_stack'', JStr st)] else [])
                         @ context
                         @ (case ed_sessionId details of
                              None \<Rightarrow> []
                            | Some sid \<Rightarrow>
                                if sid = [] then []
                                else [(''$session_id'', JStr sid),
                                      (''session_replay_url'',
                                       JStr (case getProjectId w apiKey of
                                               Some projectId \<Rightarrow>
                                                 posthogHost @ ''/project/'' @ projectId
                                                   @ ''/replay/'' @ sid
                                             | None \<Rightarrow> posthogHost @ ''/replay/'' @ sid)),
                                      (''$error_with_session_replay'', JBool True)])
                         @ (if ed_userId details \<noteq> [] \<and> ed_userId details \<noteq> ''anonymous''
                            then [(''user_id'', JStr (ed_userId details))] else []))))
                     s)))"

subsection \<open>Request interceptor\<close>

text \<open>What \<^verbatim>\<open>intercept\<close> reads from the request. \<open>req_user_id\<close> is the value of
  \<^verbatim>\<open>request.user?.id?.toString()\<close>, \<open>req_route_path\<close> that of \<^verbatim>\<open>request.route?.path\<close>.\<close>

record http_request =
  req_method :: string
  req_url :: string
  req_route_path :: "string option"
  req_path :: string
  req_query :: json
  req_body :: "json option"
  req_headers :: json
  req_user_id :: "string option"

text \<open>What the handler throws, as far as \<^verbatim>\<open>intercept\<close> reads it:
  \<^verbatim>\<open>error.constructor?.name\<close>, \<^verbatim>\<open>error.message\<close>, \<^verbatim>\<open>error.stack\<close>, \<^verbatim>\<open>error.status\<close>.\<close>

record thrown_error =
  err_constructor_name :: "string option"
  err_message :: "string option"
  err_stack :: "string option"
  err_status :: "int option"

text \<open>The handler of a route returns one value or throws; \<^verbatim>\<open>tap\<close> then calls \<^verbatim>\<open>next\<close> once
  or \<^verbatim>\<open>error\<close> once.\<close>

datatype handler_outcome =
    Returned "json option"
  | Threw thrown_error

text \<open>\<^verbatim>\<open>s || d\<close> on strings.\<close>

definition str_or :: "string option \<Rightarrow> string \<Rightarrow> string" where
  "str_or v d = (case v of None \<Rightarrow> d | Some x \<Rightarrow> if x = [] then d else x)"

text \<open>\<^verbatim>\<open>(request.headers['x-session-id'] as string) || undefined\<close>; a header of a request
  is a string.\<close>

definition session_header :: "json \<Rightarrow> string option" where
  "session_header headers =
     (case opt_get headers ''x-session-id'' of
        Some (JStr sid) \<Rightarrow> if sid \<noteq> [] then Some sid else None
      | _ \<Rightarrow> None)"

text \<open>
  \<^verbatim>\<open>PosthogInterceptor.intercept\<close> with the callbacks of \<^verbatim>\<open>tap\<close> applied to the outcome of
  the handler. \<open>startTime\<close> is the clock when the request arrives, \<open>statusCode\<close> the value
  of \<^verbatim>\<open>response.statusCode\<close>; the world is read when the handler has finished. The
  interceptor has its own copy of \<^verbatim>\<open>sanitizeResponse\<close>, the same text as the service's.
\<close>

definition intercept ::
  "world \<Rightarrow> int \<Rightarrow> http_request \<Rightarrow> int \<Rightarrow> handler_outcome \<Rightarrow> service
     \<Rightarrow> (js_error + service) \<times> remote_call list" where
  "intercept w startTime request statusCode outcome s =
     (case interceptor_sanitizeBody (req_body request) of
        Inl e \<Rightarrow> (Inl e, [])
      | Inr body \<Rightarrow>
          let path = str_or (req_route_path request) (req_path request);
              headers = interceptor_sanitizeHeaders (Some (req_headers request));
              sessionId = session_header (req_headers request);
              shouldTrack = (req_method request \<in> set [''POST'', ''PUT'', ''PATCH'']);
              currentUserId = str_or (req_user_id request) ''anonymous''
          in case outcome of
               Returned responseData \<Rightarrow>
                 if shouldTrack then
                   (case sanitizeResponse responseData of
                      Inl e \<Rightarrow> (Inl e, [])
                    | Inr response_body \<Rightarrow>
                        trackWriteRequestWithComparison w
                          \<lparr>requestBody = Some body, responseBody = Some response_body,
                           wd_method = req_method request, wd_path = path,
                           wd_url = req_url request,
                           wd_statusCode = (if statusCode = 0 then 200 else statusCode),
                           wd_userId = currentUserId,
                           wd_duration = clock w - startTime,
                           wd_sessionId = sessionId\<rparr> s)
                 else (Inr s, [])
             | Threw error \<Rightarrow>
                 (trackError w
                    \<lparr>errorName = str_or (err_constructor_name error) ''Error'',
                     errorMessage = err_message error,
                     errorStack = map_option (take 1000) (err_stack error),
                     ed_userId = currentUserId,
                     ed_sessionId = sessionId,
                     ed_context =
                       Some [(''method'', JStr (req_method request)),
                             (''url'', JStr (req_url request)),
                             (''path'', JStr path),
                             (''query'', req_query request),
                             (''requestBody'', body),
                             (''requestHeaders'', headers),
                             (''statusCode'',
                              JNum (case err_status error of
                                      None \<Rightarrow> 500
                                    | Some st \<Rightarrow> if st = 0 then 500 else st)),
                             (''duration'', JNum (clock w - startTime)),
                             (''timestamp'', JStr (iso_string w (clock w)))],
                     errorType = None\<rparr> s,
                  []))"

text \<open>The events that \<^verbatim>\<open>client.capture\<close> accepted between two states of the service.\<close>

definition emitted :: "service \<Rightarrow> service \<Rightarrow> eventData list" where
  "emitted s s' = drop (length (captured s)) (captured s')"

subsection \<open>Concrete inputs used by the examples\<close>

definition no_env :: env where
  "no_env = \<lparr>POSTHOG_API_KEY = None, POSTHOG_PERSONAL_API_KEY = None,
              POSTHOG_HOST = None, POSTHOG_PROJECT_ID = None\<rparr>"

text \<open>A world in which no key is configured and the remote store is unreachable.\<close>

definition offline_world :: world where
  "offline_world =
     \<lparr>environment = no_env, clock = 1000, iso_string = (\<lambda>t. show_int t),
      date_value = (\<lambda>v. None), exceeds_zero = (\<lambda>v. False), capture_throws = False,
      query_api = Rejected, events_api = Rejected\<rparr>"

definition one_event :: service where
  "one_event =
     \<lparr>eventLog = [\<lparr>distinctId = ''u1'', eventName = ''item_created'',
                    properties = [], timestamp = 5\<rparr>],
      captured = []\<rparr>"


definition two_events :: service where
  "two_events =
     \<lparr>eventLog = [\<lparr>distinctId = ''u1'', eventName = ''item_created'',
                    properties = [], timestamp = 5\<rparr>,
                  \<lparr>distinctId = ''u1'', eventName = ''api_write_request'',
                    properties = [], timestamp = 6\<rparr>],
      captured = []\<rparr>"

text \<open>\<^verbatim>\<open>{"token": 1, "pad": "aaa...a"}\<close> with 975 letters: 995 characters when serialized.\<close>

definition padded_token_body :: json where
  "padded_token_body = JObj [(''token'', JNum 1), (''pad'', JStr (replicate 975 CHR ''a''))]"

text \<open>\<^verbatim>\<open>{"token": "", "user": {"password": "p"}, "secret": "s"}\<close>.\<close>

definition nested_body :: json where
  "nested_body =
     JObj [(''token'', JStr []), (''user'', JObj [(''password'', JStr ''p'')]),
           (''secret'', JStr ''s'')]"

text \<open>Scenario A of the specification: the item is renamed, the response stays.\<close>

definition old_item_call :: bodies where
  "old_item_call =
     \<lparr>requestBody = Some (JObj [(''name'', JStr ''Old Item'')]),
      responseBody = Some (JObj [(''id'', JNum 1)])\<rparr>"

definition new_item_call :: bodies where
  "new_item_call =
     \<lparr>requestBody = Some (JObj [(''name'', JStr ''New Item'')]),
      responseBody = Some (JObj [(''id'', JNum 1)])\<rparr>"

text \<open>A configured environment: a personal key and an explicit project id.\<close>

definition configured_env :: env where
  "configured_env =
     \<lparr>POSTHOG_API_KEY = Some ''phc_abc'', POSTHOG_PERSONAL_API_KEY = Some ''phx_personal'',
      POSTHOG_HOST = None, POSTHOG_PROJECT_ID = Some ''42''\<rparr>"

text \<open>Configured, but every request to the remote store is rejected.\<close>

definition unreachable_world :: world where
  "unreachable_world = offline_world\<lparr>environment := configured_env\<rparr>"

text \<open>The answer of the events endpoint with one stored call.\<close>

definition stored_events :: json where
  "stored_events =
     JObj [(''results'',
            JArr [JObj [(''properties'',
                         JObj [(''request_body'', JObj [(''name'', JStr ''Old Item'')]),
                               (''status_code'', JNum 201)]),
                        (''timestamp'', JStr ''2024-01-15T10:30:00.000Z''),
                        (''distinct_id'', JStr ''u1''),
                        (''id'', JStr ''e1'')]])]"

text \<open>Configured; the query endpoint answers 400, the events endpoint answers with
  \<open>stored_events\<close>; every date is valid.\<close>

definition fallback_world :: world where
  "fallback_world =
     offline_world
       \<lparr>environment := configured_env,
        date_value := (\<lambda>v. Some 900),
        query_api := Response False 400 (Inr ''bad request'') (Inl SyntaxError),
        events_api := Response True 200 (Inl TypeError) (Inr stored_events)\<rparr>"

text \<open>The previous call that the client builds from \<open>stored_events\<close>.\<close>

definition stored_call :: CallRecord where
  "stored_call =
     \<lparr>requestBody = Some (JObj [(''name'', JStr ''Old Item'')]),
      responseBody = None,
      prev_timestamp = Some 900,
      prev_userId = Some (JStr ''u1''),
      prev_eventId = Some (JStr ''e1''),
      prev_statusCode = Some (JNum 201),
      prev_duration = None,
      prev_method = None,
      prev_path = None,
      prev_url = None\<rparr>"

text \<open>A response that is not a success: the request is rejected or \<^verbatim>\<open>response.ok\<close> is
  false.\<close>

definition failed :: "fetch_outcome \<Rightarrow> bool" where
  "failed outcome = (case outcome of Rejected \<Rightarrow> True | Response ok status text body \<Rightarrow> \<not> ok)"

definition no_credentials :: "world \<Rightarrow> bool" where
  "no_credentials w =
     (key_or (POSTHOG_PERSONAL_API_KEY (environment w)) (POSTHOG_API_KEY (environment w))
        \<in> {None, Some [], Some placeholder_key})"

text \<open>A request \<^verbatim>\<open>POST /items\<close> with the body \<^verbatim>\<open>{"name": "New Item"}\<close>, and what the
  interceptor passes to the tracker for it when the handler answers \<^verbatim>\<open>{"id": 1}\<close>.\<close>

definition post_items :: http_request where
  "post_items =
     \<lparr>req_method = ''POST'', req_url = ''/items'', req_route_path = Some ''/items'',
      req_path = ''/items'', req_query = JObj [],
      req_body = Some (JObj [(''name'', JStr ''New Item'')]),
      req_headers = JObj [(''content-type'', JStr ''application/json'')],
      req_user_id = Some ''u1''\<rparr>"

definition post_items_details :: write_details where
  "post_items_details =
     \<lparr>requestBody = Some (JObj [(''name'', JStr ''New Item'')]),
      responseBody = Some (JObj [(''id'', JNum 1)]),
      wd_method = ''POST'', wd_path = ''/items'', wd_url = ''/items'', wd_statusCode = 201,
      wd_userId = ''u1'', wd_duration = 12, wd_sessionId = None\<rparr>"

definition not_found :: thrown_error where
  "not_found =
     \<lparr>err_constructor_name = Some ''NotFoundException'', err_message = Some ''Item not found'',
      err_stack = None, err_status = Some 404\<rparr>"

text \<open>The state after a call: the new state, or the old one when the call raised.\<close>

definition state_after :: "(js_error + service) \<times> remote_call list \<Rightarrow> service \<Rightarrow> service" where
  "state_after result s = (case fst result of Inl e \<Rightarrow> s | Inr s' \<Rightarrow> s')"

text \<open>The first event captured during a call that led from \<open>s\<close> to \<open>s'\<close>, as the triple of
  its name, its \<^verbatim>\<open>is_first_call\<close> property and whether it lacks \<^verbatim>\<open>previous_call\<close>.\<close>

definition first_emitted :: "service \<Rightarrow> service \<Rightarrow> string \<times> json option \<times> bool" where
  "first_emitted s s' =
     (case emitted s s' of
        [] \<Rightarrow> ([], None, True)
      | e # es \<Rightarrow>
          (ev_event e, obj_get (ev_properties e) ''is_first_call'',
           obj_get (ev_properties e) ''previous_call'' = None))"

section \<open>Verified properties\<close>

subsection \<open>A text that ends in three dots is not JSON\<close>

lemma step_top_lit_ok: "step_top ts c = Some (st', ts') \<Longrightarrow> lit_ok st'"
  by (auto simp: step_top_def lit_ok_def split: if_splits)

lemma step_lit_ok: "lit_ok st \<Longrightarrow> step st ts c = Some (st', ts') \<Longrightarrow> lit_ok st'"
  by (cases st) (auto simp: lit_ok_def step_top_def split: if_splits option.splits list.splits)

lemma step_top_dot: "step_top ts (CHR ''.'') = None"
  by (simp add: step_top_def dquote_def is_digit_def)

lemma scan_three_dots: "lit_ok st \<Longrightarrow> scan st ts ''...'' = None"
  by (cases st)
     (auto simp: lit_ok_def step_top_dot dquote_def bslash_def is_digit_def hex_val_def
           split: list.splits option.splits)

lemma scan_trailing_dots: "lit_ok st \<Longrightarrow> scan st ts (s @ ''...'') = None"
proof (induction s arbitrary: st ts)
  case Nil
  then show ?case using scan_three_dots by simp
next
  case (Cons c s)
  show ?case
  proof (cases "step st ts c")
    case None
    then show ?thesis by simp
  next
    case (Some p)
    obtain st' ts' where p: "p = (st', ts')" by (cases p)
    with Some Cons.prems have "lit_ok st'" using step_lit_ok by blast
    then have "scan st' ts' (s @ ''...'') = None" by (rule Cons.IH)
    with Some p show ?thesis by simp
  qed
qed

lemma JSON_parse_trailing_dots: "JSON_parse (s @ ''...'') = Inl SyntaxError"
  using scan_trailing_dots [of LTop "[]" s] by (simp add: JSON_parse_def lit_ok_def)

subsection \<open>Oversized payloads\<close>

text \<open>Both sanitizers hand the cut serialization, with three dots appended, to
  \<^verbatim>\<open>JSON.parse\<close>; so every payload over the threshold makes them raise.\<close>

lemma sanitizeBody_with_large:
  "truthy b \<Longrightarrow>
   length (JSON_stringify (JObj (foldl redact_field (own_props b) fs))) > 1000 \<Longrightarrow>
   sanitizeBody_with fs (Some b) = Inl SyntaxError"
  by (simp add: sanitizeBody_with_def Let_def JSON_parse_trailing_dots del: JSON_stringify.simps)

lemma sanitizeResponse_large:
  "truthy d \<Longrightarrow> length (JSON_stringify d) > 2000 \<Longrightarrow> sanitizeResponse (Some d) = Inl SyntaxError"
  by (simp add: sanitizeResponse_def Let_def JSON_parse_trailing_dots del: JSON_stringify.simps)

lemma escape_char_nonempty: "1 \<le> length (escape_char c)"
  by (simp add: escape_char_def)

lemma length_escaped: "length s \<le> length (concat (map escape_char s))"
proof (induction s)
  case Nil
  show ?case by simp
next
  case (Cons c s)
  then show ?case using escape_char_nonempty [of c] by simp
qed

lemma length_quote: "length s + 2 \<le> length (quote s)"
  using length_escaped [of s] by (simp add: quote_def)

text \<open>
  Claim C1. \<^verbatim>\<open>sanitizeBody\<close> is said to return a marked, truncated value for a body whose
  serialization is over 1000 characters, and \<^verbatim>\<open>sanitizeResponse\<close> a marker object over
  2000. On the body \<^verbatim>\<open>{"name": "aaa...a"}\<close> with a name of 1000 characters
  \<^verbatim>\<open>sanitizeBody\<close> raises \<^verbatim>\<open>SyntaxError\<close>, and so does \<^verbatim>\<open>sanitizeResponse\<close> on a string of
  2000 characters.
\<close>

theorem sanitizers_raise_on_oversized:
  "sanitizeBody (Some (JObj [(''name'', JStr (replicate 1000 CHR ''a''))])) = Inl SyntaxError
   \<and> sanitizeResponse (Some (JStr (replicate 2000 CHR ''a''))) = Inl SyntaxError"
proof -
  let ?b = "JObj [(''name'', JStr (replicate 1000 CHR ''a''))]"
  have "foldl redact_field (own_props ?b) sensitiveFields = own_props ?b"
    by (simp add: sensitiveFields_def redact_field_def obj_get_def truthy_opt_def)
  moreover have "length (JSON_stringify (JObj (own_props ?b))) > 1000"
    using length_quote [of "replicate 1000 CHR ''a''"] by simp
  ultimately have "sanitizeBody (Some ?b) = Inl SyntaxError"
    unfolding sanitizeBody_def by (simp add: sanitizeBody_with_large del: JSON_stringify.simps)
  moreover have "sanitizeResponse (Some (JStr (replicate 2000 CHR ''a''))) = Inl SyntaxError"
    using length_quote [of "replicate 2000 CHR ''a''"] by (simp add: sanitizeResponse_large)
  ultimately show ?thesis by simp
qed

subsection \<open>Redaction of request bodies\<close>

lemma obj_set_map:
  "distinct (map fst kvs) \<Longrightarrow> k \<in> fst ` set kvs \<Longrightarrow>
   obj_set kvs k v = map (\<lambda>kv. if fst kv = k then (k, v) else kv) kvs"
proof (induction kvs)
  case Nil
  then show ?case by simp
next
  case (Cons p ps)
  show ?case
  proof (cases "fst p = k")
    case True
    with Cons.prems have "k \<notin> fst ` set ps" by simp
    then have "\<forall>q \<in> set ps. fst q \<noteq> k" by blast
    then have "map (\<lambda>kv. if fst kv = k then (k, v) else kv) ps = ps"
      by (simp add: map_idI)
    with True show ?thesis by simp
  next
    case False
    with Cons show ?thesis by auto
  qed
qed

text \<open>One pass of the loop over the sensitive fields, on an object with distinct keys.\<close>

lemma redact_field_map:
  assumes "distinct (map fst kvs)"
  shows "redact_field kvs f = map (redact_entry [f]) kvs"
proof (cases "truthy_opt (obj_get kvs f)")
  case True
  then obtain v where v: "map_of kvs f = Some v" "truthy v"
    by (auto simp: truthy_opt_def obj_get_def split: option.splits)
  then have "(f, v) \<in> set kvs" by (simp add: map_of_SomeD)
  then have "f \<in> fst ` set kvs" by force
  with assms have "obj_set kvs f REDACTED = map (\<lambda>kv. if fst kv = f then (f, REDACTED) else kv) kvs"
    by (rule obj_set_map)
  moreover have "\<And>kv. kv \<in> set kvs \<Longrightarrow> fst kv = f \<Longrightarrow> snd kv = v"
    using assms v(1) by (metis map_of_is_SomeI option.inject prod.collapse)
  ultimately show ?thesis using True v(2)
    by (auto simp: redact_field_def redact_entry_def)
next
  case False
  have "\<And>kv. kv \<in> set kvs \<Longrightarrow> fst kv = f \<Longrightarrow> \<not> truthy (snd kv)"
  proof -
    fix kv assume "kv \<in> set kvs" "fst kv = f"
    with assms have "map_of kvs f = Some (snd kv)"
      by (metis map_of_is_SomeI prod.collapse)
    with False show "\<not> truthy (snd kv)" by (simp add: truthy_opt_def obj_get_def)
  qed
  then have "map (redact_entry [f]) kvs = kvs"
    by (auto simp: redact_entry_def intro!: map_idI)
  with False show ?thesis by (simp add: redact_field_def)
qed

lemma redact_entry_fst: "fst (redact_entry fs kv) = fst kv"
  by (simp add: redact_entry_def)

lemma redact_entry_Cons: "redact_entry fs (redact_entry [f] kv) = redact_entry (f # fs) kv"
  by (auto simp: redact_entry_def REDACTED_def)

lemma foldl_redact_field:
  "distinct (map fst kvs) \<Longrightarrow> foldl redact_field kvs fs = map (redact_entry fs) kvs"
proof (induction fs arbitrary: kvs)
  case Nil
  show ?case by (simp add: redact_entry_def)
next
  case (Cons f fs)
  have "map fst (map (redact_entry [f]) kvs) = map fst kvs"
    by (simp add: redact_entry_fst comp_def)
  with Cons.prems have d: "distinct (map fst (map (redact_entry [f]) kvs))" by (simp only:)
  have "foldl redact_field kvs (f # fs) = foldl redact_field (map (redact_entry [f]) kvs) fs"
    using Cons.prems by (simp add: redact_field_map)
  also have "\<dots> = map (redact_entry fs) (map (redact_entry [f]) kvs)"
    using d by (rule Cons.IH)
  also have "\<dots> = map (redact_entry (f # fs)) kvs"
    by (simp add: redact_entry_Cons)
  finally show ?case .
qed

lemma sanitizeBody_with_small:
  assumes "truthy b" and "distinct (map fst (own_props b))"
    and "length (JSON_stringify (JObj (map (redact_entry fs) (own_props b)))) \<le> 1000"
  shows "sanitizeBody_with fs (Some b) = Inr (JObj (map (redact_entry fs) (own_props b)))"
  using assms by (simp add: sanitizeBody_with_def foldl_redact_field Let_def del: JSON_stringify.simps)

lemmas eval_simps = redact_entry_def sensitiveFields_def interceptorFields_def REDACTED_def
  quote_def escape_char_def dquote_def bslash_def show_int_def show_nat.simps

lemma escaped_letters: "concat (replicate n (escape_char CHR ''a'')) = replicate n CHR ''a''"
  by (induction n) (simp_all add: escape_char_def dquote_def bslash_def)

text \<open>
  Claim C6, as stated: every field whose key matches the sensitive set without regard to
  case is replaced by the marker. The code compares keys exactly and skips falsy values:
  \<^verbatim>\<open>{"Password": "secret123"}\<close> and \<^verbatim>\<open>{"password": 0}\<close> come back unchanged.
\<close>

theorem sanitizeBody_case_counterexample:
  "toLowerCase ''Password'' \<in> set (map toLowerCase sensitiveFields)
   \<and> sanitizeBody (Some (JObj [(''Password'', JStr ''secret123'')]))
       = Inr (JObj [(''Password'', JStr ''secret123'')])
   \<and> sanitizeBody (Some (JObj [(''password'', JNum 0)])) = Inr (JObj [(''password'', JNum 0)])"
proof -
  have "toLowerCase ''Password'' \<in> set (map toLowerCase sensitiveFields)"
    by code_simp
  moreover have "sanitizeBody (Some (JObj [(''Password'', JStr ''secret123'')]))
       = Inr (JObj [(''Password'', JStr ''secret123'')])"
    by (simp add: sanitizeBody_def sanitizeBody_with_def redact_field_def obj_get_def
          truthy_opt_def eval_simps)
  moreover have "sanitizeBody (Some (JObj [(''password'', JNum 0)]))
       = Inr (JObj [(''password'', JNum 0)])"
    by (simp add: sanitizeBody_def sanitizeBody_with_def redact_field_def obj_get_def
          truthy_opt_def eval_simps)
  ultimately show ?thesis by blast
qed

text \<open>
  Claim C6, amended: for every body object whose serialization after redaction is within
  1000 characters, \<^verbatim>\<open>sanitizeBody\<close> replaces by \<^verbatim>\<open>"[REDACTED]"\<close> the value of each top-level
  field whose key is exactly one of \<^verbatim>\<open>password\<close>, \<^verbatim>\<open>token\<close>, \<^verbatim>\<open>secret\<close>, \<^verbatim>\<open>apiKey\<close>,
  \<^verbatim>\<open>apikey\<close>, \<^verbatim>\<open>access_token\<close> and whose value is truthy, and leaves every other field as
  it is. The keys of an object are distinct.
\<close>

theorem sanitizeBody_redacts_listed_keys:
  assumes "distinct (map fst kvs)"
    and "length (JSON_stringify (JObj (map (redact_entry sensitiveFields) kvs))) \<le> 1000"
  shows "sanitizeBody (Some (JObj kvs)) = Inr (JObj (map (redact_entry sensitiveFields) kvs))"
  using assms sanitizeBody_with_small [of "JObj kvs" sensitiveFields]
  by (simp add: sanitizeBody_def del: JSON_stringify.simps)

text \<open>The example of the specification: \<^verbatim>\<open>{"password":"secret123","name":"x"}\<close>.\<close>

theorem sanitizeBody_redacts_listed_keys_witness:
  "sanitizeBody (Some (JObj [(''password'', JStr ''secret123''), (''name'', JStr ''x'')]))
     = Inr (JObj [(''password'', JStr ''[REDACTED]''), (''name'', JStr ''x'')])"
  using sanitizeBody_redacts_listed_keys
          [of "[(''password'', JStr ''secret123''), (''name'', JStr ''x'')]"]
  by (simp add: eval_simps)

text \<open>
  Claim C9, as stated: for every body whose serialization is within 1000 characters the
  output equals the input except at the sensitive top-level keys with truthy values.
  The threshold is applied to the serialization after redaction, so a body of 995
  characters with \<^verbatim>\<open>"token": 1\<close> is over it and has no output at all; and a body that is
  an array comes back as an object with index keys.
\<close>

theorem sanitizeBody_input_threshold_counterexample:
  "length (JSON_stringify padded_token_body) \<le> 1000
   \<and> sanitizeBody (Some padded_token_body) = Inl SyntaxError
   \<and> interceptor_sanitizeBody (Some (JArr [JNum 1])) = Inr (JObj [(''0'', JNum 1)])"
proof -
  have q: "quote (replicate 975 CHR ''a'') = dquote # replicate 975 CHR ''a'' @ [dquote]"
    by (simp add: quote_def escaped_letters)
  have small: "length (JSON_stringify padded_token_body) \<le> 1000"
    by (simp add: padded_token_body_def q) (simp add: eval_simps)
  have "foldl redact_field (own_props padded_token_body) sensitiveFields
      = [(''token'', REDACTED), (''pad'', JStr (replicate 975 CHR ''a''))]"
    by (simp add: padded_token_body_def sensitiveFields_def redact_field_def obj_get_def
          truthy_opt_def)
  moreover have "length (JSON_stringify
      (JObj [(''token'', REDACTED), (''pad'', JStr (replicate 975 CHR ''a''))])) > 1000"
    by (simp add: q) (simp add: eval_simps)
  ultimately have "sanitizeBody (Some padded_token_body) = Inl SyntaxError"
    unfolding sanitizeBody_def
    by (simp add: sanitizeBody_with_large padded_token_body_def del: JSON_stringify.simps)
  moreover have "interceptor_sanitizeBody (Some (JArr [JNum 1])) = Inr (JObj [(''0'', JNum 1)])"
    by (simp add: interceptor_sanitizeBody_def sanitizeBody_with_def redact_field_def obj_get_def
          truthy_opt_def index_keys_def eval_simps)
  ultimately show ?thesis using small by blast
qed

text \<open>
  Claim C9, amended: for every truthy body whose serialization after redaction is within
  1000 characters, each of the two \<^verbatim>\<open>sanitizeBody\<close> methods returns a plain object that
  holds the own properties of the body in their order (the fields of the body when it is
  a plain object), where a top-level property is replaced by \<^verbatim>\<open>"[REDACTED]"\<close> exactly when
  its key is in the method's list and its value is truthy. A sensitive key inside a
  nested object and a sensitive field with a falsy value pass through. The keys of the
  own properties of a value are distinct.
\<close>

theorem sanitizeBody_shallow_truthy_only:
  assumes "truthy b" and "distinct (map fst (own_props b))"
  shows "(length (JSON_stringify (JObj (map (redact_entry sensitiveFields) (own_props b))))
            \<le> 1000
          \<longrightarrow> sanitizeBody (Some b)
                = Inr (JObj (map (redact_entry sensitiveFields) (own_props b))))
       \<and> (length (JSON_stringify (JObj (map (redact_entry interceptorFields) (own_props b))))
            \<le> 1000
          \<longrightarrow> interceptor_sanitizeBody (Some b)
                = Inr (JObj (map (redact_entry interceptorFields) (own_props b))))"
  using assms
  by (simp add: sanitizeBody_def interceptor_sanitizeBody_def sanitizeBody_with_small
        del: JSON_stringify.simps)

theorem sanitizeBody_shallow_truthy_only_witness:
  "sanitizeBody (Some nested_body)
     = Inr (JObj [(''token'', JStr []), (''user'', JObj [(''password'', JStr ''p'')]),
                  (''secret'', JStr ''[REDACTED]'')])
   \<and> interceptor_sanitizeBody (Some nested_body)
     = Inr (JObj [(''token'', JStr []), (''user'', JObj [(''password'', JStr ''p'')]),
                  (''secret'', JStr ''[REDACTED]'')])"
  using sanitizeBody_shallow_truthy_only [of nested_body]
  by (simp add: nested_body_def eval_simps)

subsection \<open>Structural diff and change summary\<close>

text \<open>
  Claim C3. The diff of a value with itself is empty: \<^verbatim>\<open>deepDiff(a, a)\<close> assigns no key,
  whatever \<open>a\<close> is (a leaf, an array or a nested object).
\<close>

theorem deepDiff_same_value: "deepDiff a a = []"
  by (subst deepDiff.simps) (auto split: option.splits)

text \<open>The same fact, for the examples below.\<close>

lemma deepDiff_refl: "deepDiff v v = []"
  by (subst deepDiff.simps) (auto split: option.splits)

text \<open>No diff has \<^verbatim>\<open>__proto__\<close> among its own keys.\<close>

lemma diff_entry_key: "kv \<in> set (diff_entry key v) \<Longrightarrow> fst kv = key \<and> key \<noteq> ''__proto__''"
  by (auto simp: diff_entry_def obj_assign_def split: if_splits)

lemma deepDiff_no_proto_key: "''__proto__'' \<notin> fst ` set (deepDiff a b)"
proof
  assume "''__proto__'' \<in> fst ` set (deepDiff a b)"
  then obtain kv where kv: "kv \<in> set (deepDiff a b)" and k: "fst kv = ''__proto__''"
    by auto
  from kv obtain key where "kv \<in> set
      (case (opt_get a key, opt_get b key) of
         (None, None) \<Rightarrow> []
       | (None, Some curVal) \<Rightarrow> diff_entry key (Added curVal)
       | (Some prevVal, None) \<Rightarrow> diff_entry key (Removed prevVal)
       | (Some prevVal, Some curVal) \<Rightarrow>
           if JSON_stringify prevVal \<noteq> JSON_stringify curVal then
             if is_plain_object prevVal \<and> is_plain_object curVal then
               (let nestedDiff = deepDiff prevVal curVal
                in if length nestedDiff > 0 then diff_entry key (JObj nestedDiff) else [])
             else diff_entry key (Changed prevVal curVal)
           else [])"
    by (subst (asm) deepDiff.simps) auto
  then have "fst kv \<noteq> ''__proto__''"
    by (auto simp: Let_def split: option.splits if_splits dest: diff_entry_key)
  with k show False by simp
qed

lemma join_not_first_call:
  "join ''; '' (body_change ''Request body'' a b @ body_change ''Response body'' c d)
     \<noteq> ''First call to this endpoint''"
  by (auto simp: body_change_def split: bool.splits)

lemma join_not_no_changes:
  "join ''; '' (body_change ''Request body'' a b @ body_change ''Response body'' c d)
     \<noteq> ''No changes detected''"
  by (auto simp: body_change_def split: bool.splits)

lemma compare_bodies_desc: "snd (compare_bodies key label p c) = body_change label p c"
  by (auto simp: compare_bodies_def body_change_def Let_def split: bool.splits)

lemma compare_bodies_empty:
  "fst (compare_bodies key label p c) = [] \<longleftrightarrow> body_change label p c = []"
  by (auto simp: compare_bodies_def body_change_def Let_def split: bool.splits)

text \<open>
  Claim C4. The summary of \<^verbatim>\<open>calculateChanges(previous, current)\<close> is
  "First call to this endpoint" exactly when \<open>previous\<close> is null; it is
  "No changes detected" exactly when \<open>previous\<close> is not null and neither the comparison
  of the request bodies nor that of the response bodies yields a change; otherwise it is
  the change descriptions joined by "; ". The change map is empty exactly in the first
  two cases. A comparison yields a change when both bodies are present and their diff
  has an own key, or when exactly one of them is present; a diff never has the own key
  \<^verbatim>\<open>__proto__\<close>.
\<close>

theorem calculateChanges_summary:
  fixes previous :: "'a bodies_scheme option" and current :: "'b bodies_scheme"
  defines "r \<equiv> calculateChanges previous current"
  shows "(summary r = ''First call to this endpoint'' \<longleftrightarrow> previous = None)
       \<and> (summary r = ''No changes detected'' \<longleftrightarrow>
            (\<exists>p. previous = Some p
                 \<and> body_change ''Request body'' (requestBody p) (requestBody current) = []
                 \<and> body_change ''Response body'' (responseBody p) (responseBody current) = []))
       \<and> (\<forall>p. previous = Some p \<longrightarrow>
              body_change ''Request body'' (requestBody p) (requestBody current)
                @ body_change ''Response body'' (responseBody p) (responseBody current) \<noteq> [] \<longrightarrow>
              summary r =
                join ''; ''
                  (body_change ''Request body'' (requestBody p) (requestBody current)
                   @ body_change ''Response body'' (responseBody p) (responseBody current)))
       \<and> (hasChanges r \<longleftrightarrow> changes r \<noteq> [])
       \<and> (changes r = [] \<longleftrightarrow>
            summary r = ''First call to this endpoint'' \<or> summary r = ''No changes detected'')"
proof (cases previous)
  case None
  then show ?thesis by (simp add: r_def calculateChanges_def)
next
  case (Some p)
  let ?ds = "body_change ''Request body'' (requestBody p) (requestBody current)
             @ body_change ''Response body'' (responseBody p) (responseBody current)"
  have s: "summary r = (if ?ds = [] then ''No changes detected'' else join ''; '' ?ds)"
    using Some by (simp add: r_def calculateChanges_def Let_def compare_bodies_desc)
  have c: "changes r = [] \<longleftrightarrow> ?ds = []"
    using Some by (simp add: r_def calculateChanges_def Let_def compare_bodies_empty)
  have h: "hasChanges r \<longleftrightarrow> changes r \<noteq> []"
    using Some by (simp add: r_def calculateChanges_def Let_def)
  have n1: "join ''; '' ?ds \<noteq> ''First call to this endpoint''"
    by (rule join_not_first_call)
  have n2: "join ''; '' ?ds \<noteq> ''No changes detected''"
    by (rule join_not_no_changes)
  show ?thesis using Some s c h n1 n2 by auto
qed

lemma scenario_A_diff:
  "deepDiff (JObj [(''name'', JStr ''Old Item'')]) (JObj [(''name'', JStr ''New Item'')])
     = [(''name'', Changed (JStr ''Old Item'') (JStr ''New Item''))]"
  by (simp add: deepDiff.simps allKeys_def object_keys_def is_plain_object_def quote_def
        escape_char_def dquote_def bslash_def diff_entry_def obj_assign_def)

lemma scenario_A_changes:
  "changes (calculateChanges (Some old_item_call) new_item_call)
     = [(''request_body'',
         JObj [(''name'', Changed (JStr ''Old Item'') (JStr ''New Item''))])]"
  by (simp add: calculateChanges_def compare_bodies_def old_item_call_def new_item_call_def
        truthy_opt_def scenario_A_diff deepDiff_refl Let_def)

text \<open>A previous body \<^verbatim>\<open>{"__proto__": 1}\<close> against the current body \<^verbatim>\<open>{}\<close>: the assignment
  \<^verbatim>\<open>diff['__proto__'] = { removed: 1 }\<close> adds no own key, the diff is empty and no change is
  reported.\<close>

lemma proto_key_no_change:
  "calculateChanges
     (Some \<lparr>requestBody = Some (JObj [(''__proto__'', JNum 1)]), responseBody = None\<rparr>)
     \<lparr>requestBody = Some (JObj []), responseBody = None\<rparr>
   = \<lparr>hasChanges = False, changes = [], summary = ''No changes detected''\<rparr>"
  by (simp add: calculateChanges_def compare_bodies_def truthy_opt_def deepDiff.simps
        allKeys_def object_keys_def diff_entry_def obj_assign_def Let_def)

text \<open>Scenario A: the diff is \<^verbatim>\<open>{name: {previous: "Old Item", current: "New Item"}}\<close> and
  the summary is "Request body changed".\<close>

theorem calculateChanges_summary_witness:
  "summary (calculateChanges (Some old_item_call) new_item_call) = ''Request body changed''
   \<and> changes (calculateChanges (Some old_item_call) new_item_call)
       = [(''request_body'',
           JObj [(''name'', Changed (JStr ''Old Item'') (JStr ''New Item''))])]
   \<and> hasChanges (calculateChanges (Some old_item_call) new_item_call)"
proof -
  have req: "body_change ''Request body'' (requestBody old_item_call) (requestBody new_item_call)
      = [''Request body changed'']"
    by (simp add: body_change_def old_item_call_def new_item_call_def truthy_opt_def
          scenario_A_diff)
  have res: "body_change ''Response body'' (responseBody old_item_call)
      (responseBody new_item_call) = []"
    by (simp add: body_change_def old_item_call_def new_item_call_def truthy_opt_def
          deepDiff_refl)
  show ?thesis
    using calculateChanges_summary [of "Some old_item_call" new_item_call] req res
      scenario_A_changes
    by simp
qed

subsection \<open>Retrieval of the previous call\<close>

lemma catch_null_Inr: "\<exists>r. catch_null x = Inr r"
  by (cases x) (simp_all add: catch_null_def)

lemma query_attempt_trace:
  "snd (query_attempt w method path userId) = []
   \<or> (\<exists>h p k. snd (query_attempt w method path userId) = [QueryCall h p k method path])
   \<or> (\<exists>h p k u. snd (query_attempt w method path userId)
         = [QueryCall h p k method path, EventsCall h p k method path u]
        \<and> failed (query_api w))"
  by (auto simp: query_attempt_def tryEventsApiEndpoint_def failed_def Let_def
        split: option.splits fetch_outcome.splits sum.splits)

text \<open>
  Claim C5. \<^verbatim>\<open>getPreviousCallFromPostHog\<close> never throws: whatever the configuration and
  whatever the remote store does, it resolves to a previous call or to null, and so does
  the fallback \<^verbatim>\<open>tryEventsApiEndpoint\<close>. It sends nothing, or the structured query alone,
  or the structured query followed by the events request, the latter only after a
  failed query. Missing credentials, an unresolvable project id, a rejected request,
  the failure of both endpoints and an answer without events all give null.
\<close>

theorem getPreviousCall_never_throws:
  "(\<exists>r. fst (getPreviousCallFromPostHog w method path userId) = Inr r)
   \<and> (\<exists>r. fst (tryEventsApiEndpoint w host projectId apiKey method path userId) = Inr r)
   \<and> (snd (getPreviousCallFromPostHog w method path userId) = []
      \<or> (\<exists>h p k. snd (getPreviousCallFromPostHog w method path userId)
            = [QueryCall h p k method path])
      \<or> (\<exists>h p k u. snd (getPreviousCallFromPostHog w method path userId)
            = [QueryCall h p k method path, EventsCall h p k method path u]
           \<and> failed (query_api w)))
   \<and> (no_credentials w \<longrightarrow>
        getPreviousCallFromPostHog w method path userId = (Inr None, []))
   \<and> (\<forall>key. key_or (POSTHOG_PERSONAL_API_KEY (environment w)) (POSTHOG_API_KEY (environment w))
               = Some key \<longrightarrow>
             getProjectId w key = None \<longrightarrow>
             getPreviousCallFromPostHog w method path userId = (Inr None, []))
   \<and> (query_api w = Rejected \<longrightarrow>
        fst (getPreviousCallFromPostHog w method path userId) = Inr None)
   \<and> (failed (query_api w) \<and> failed (events_api w) \<longrightarrow>
        fst (getPreviousCallFromPostHog w method path userId) = Inr None)
   \<and> (\<forall>status text. query_api w = Response True status text (Inr (JObj [(''results'', JArr [])])) \<longrightarrow>
        fst (getPreviousCallFromPostHog w method path userId) = Inr None)"
proof -
  have a: "\<exists>r. fst (getPreviousCallFromPostHog w method path userId) = Inr r"
    by (simp add: getPreviousCallFromPostHog_def catch_null_Inr)
  have b: "\<exists>r. fst (tryEventsApiEndpoint w host projectId apiKey method path userId) = Inr r"
    by (simp add: tryEventsApiEndpoint_def catch_null_Inr)
  have c: "snd (getPreviousCallFromPostHog w method path userId) = []
      \<or> (\<exists>h p k. snd (getPreviousCallFromPostHog w method path userId)
            = [QueryCall h p k method path])
      \<or> (\<exists>h p k u. snd (getPreviousCallFromPostHog w method path userId)
            = [QueryCall h p k method path, EventsCall h p k method path u]
           \<and> failed (query_api w))"
    using query_attempt_trace [of w "method" "path" userId]
    by (simp add: getPreviousCallFromPostHog_def)
  have d: "no_credentials w \<longrightarrow>
        getPreviousCallFromPostHog w method path userId = (Inr None, [])"
    by (auto simp: no_credentials_def getPreviousCallFromPostHog_def query_attempt_def
          catch_null_def Let_def split: option.splits)
  have e: "\<forall>key. key_or (POSTHOG_PERSONAL_API_KEY (environment w)) (POSTHOG_API_KEY (environment w))
               = Some key \<longrightarrow>
             getProjectId w key = None \<longrightarrow>
             getPreviousCallFromPostHog w method path userId = (Inr None, [])"
    by (auto simp: getPreviousCallFromPostHog_def query_attempt_def catch_null_def Let_def
          split: option.splits)
  have f: "query_api w = Rejected \<longrightarrow>
        fst (getPreviousCallFromPostHog w method path userId) = Inr None"
    by (auto simp: getPreviousCallFromPostHog_def query_attempt_def catch_null_def Let_def
          split: option.splits)
  have g: "failed (query_api w) \<and> failed (events_api w) \<longrightarrow>
        fst (getPreviousCallFromPostHog w method path userId) = Inr None"
    by (auto simp: getPreviousCallFromPostHog_def query_attempt_def catch_null_def Let_def
          failed_def tryEventsApiEndpoint_def events_attempt_def
          split: option.splits fetch_outcome.splits sum.splits)
  have h: "\<forall>status text.
        query_api w = Response True status text (Inr (JObj [(''results'', JArr [])])) \<longrightarrow>
        fst (getPreviousCallFromPostHog w method path userId) = Inr None"
    by (auto simp: getPreviousCallFromPostHog_def query_attempt_def catch_null_def Let_def
          previous_from_query_def get_prop_def truthy_opt_def gt_zero_def opt_chain_def
          split: option.splits)
  from a b c d e f g h show ?thesis by blast
qed

lemma fallback_world_previous:
  "getPreviousCallFromPostHog fallback_world ''POST'' ''/items'' (Some ''u1'')
     = (Inr (Some stored_call),
        [QueryCall ''https://app.posthog.com'' ''42'' ''phx_personal'' ''POST'' ''/items'',
         EventsCall ''https://app.posthog.com'' ''42'' ''phx_personal'' ''POST'' ''/items''
           (Some ''u1'')])"
  by code_simp

text \<open>Three worlds: no key at all; a key, but every request rejected; a failed query
  followed by an events answer that holds a stored call.\<close>

theorem getPreviousCall_never_throws_witness:
  "getPreviousCallFromPostHog offline_world ''POST'' ''/items'' (Some ''u1'') = (Inr None, [])
   \<and> fst (getPreviousCallFromPostHog unreachable_world ''POST'' ''/items'' (Some ''u1''))
       = Inr None
   \<and> getPreviousCallFromPostHog fallback_world ''POST'' ''/items'' (Some ''u1'')
       = (Inr (Some stored_call),
          [QueryCall ''https://app.posthog.com'' ''42'' ''phx_personal'' ''POST'' ''/items'',
           EventsCall ''https://app.posthog.com'' ''42'' ''phx_personal'' ''POST'' ''/items''
             (Some ''u1'')])
   \<and> failed (query_api fallback_world)"
proof -
  have n: "no_credentials offline_world"
    by (simp add: no_credentials_def offline_world_def no_env_def key_or_def)
  have r: "query_api unreachable_world = Rejected"
    by (simp add: unreachable_world_def offline_world_def)
  have "getPreviousCallFromPostHog offline_world ''POST'' ''/items'' (Some ''u1'')
      = (Inr None, [])"
    using getPreviousCall_never_throws [of offline_world "''POST''" "''/items''" "Some ''u1''"] n
    by blast
  moreover have "fst (getPreviousCallFromPostHog unreachable_world ''POST'' ''/items''
      (Some ''u1'')) = Inr None"
    using getPreviousCall_never_throws [of unreachable_world "''POST''" "''/items''" "Some ''u1''"] r
    by blast
  moreover have "failed (query_api fallback_world)"
    using getPreviousCall_never_throws [of fallback_world "''POST''" "''/items''" "Some ''u1''"]
      fallback_world_previous
    by auto
  ultimately show ?thesis using fallback_world_previous by simp
qed

subsection \<open>The enriched write event\<close>

lemma map_of_obj_set: "map_of (obj_set kvs k v) = (map_of kvs)(k \<mapsto> v)"
  by (induction kvs) (auto simp: fun_eq_iff)

lemma map_of_set_all: "map_of (set_all props kvs) = map_of props ++ map_of (rev kvs)"
  unfolding set_all_def
proof (induction kvs arbitrary: props)
  case Nil
  show ?case by simp
next
  case (Cons kv kvs)
  have "map_of (foldl (\<lambda>acc kv. obj_set acc (fst kv) (snd kv)) props (kv # kvs))
      = map_of (obj_set props (fst kv) (snd kv)) ++ map_of (rev kvs)"
    by (simp add: Cons.IH)
  also have "\<dots> = (map_of props)(fst kv \<mapsto> snd kv) ++ map_of (rev kvs)"
    by (simp add: map_of_obj_set)
  also have "\<dots> = map_of props ++ map_of (rev (kv # kvs))"
    by (cases kv) (auto simp: fun_eq_iff map_add_def split: option.splits)
  finally show ?case .
qed

lemma obj_get_set_all:
  "obj_get (set_all props kvs) k
     = (case map_of (rev kvs) k of None \<Rightarrow> obj_get props k | Some v \<Rightarrow> Some v)"
  by (auto simp: obj_get_def map_of_set_all map_add_def split: option.splits)

text \<open>What \<^verbatim>\<open>track\<close> does to the list of captured events.\<close>

lemma track_emitted:
  "emitted s (track w d n p s) = []
   \<or> emitted s (track w d n p s)
        = [\<lparr>ev_distinctId = d, ev_event = n,
            ev_properties =
              set_all (case p of None \<Rightarrow> [] | Some x \<Rightarrow> x)
                [(''timestamp'', JStr (iso_string w (clock w))),
                 (''$lib'', JStr ''posthog-node''),
                 (''$lib_version'', JStr ''4.0.0'')]\<rparr>]"
  by (simp add: track_def emitted_def Let_def)

lemma track_captured: "captured (track w d n p s) = captured s @ emitted s (track w d n p s)"
  by (simp add: track_def emitted_def Let_def)

lemma obj_get_set_all_None:
  "obj_get (set_all props kvs) k = None \<longleftrightarrow> k \<notin> fst ` set props \<and> k \<notin> fst ` set kvs"
  by (auto simp: obj_get_def map_of_set_all map_of_eq_None_iff)

lemma hasChanges_previous:
  "hasChanges (calculateChanges previous details) \<Longrightarrow> previous \<noteq> None"
  by (cases previous) (simp_all add: calculateChanges_def)

text \<open>The entries that \<^verbatim>\<open>trackWriteRequestWithComparison\<close> adds under \<^verbatim>\<open>// Add change analysis\<close>.\<close>

lemma flag_piece:
  "map_of (rev (if hasChanges (calculateChanges previous details)
                then [(''changes'', JObj (changes (calculateChanges previous details))),
                      (''change_summary'', JStr (summary (calculateChanges previous details))),
                      (''is_first_call'', JBool False)]
                else [(''is_first_call'', JBool (case previous of None \<Rightarrow> True | Some p \<Rightarrow> False))]))
     ''is_first_call'' = Some (JBool (previous = None))"
  using hasChanges_previous [of previous details] by (cases previous) auto

lemma previous_call_props_keys:
  assumes "previous_call_props w p = Inr prevp"
  shows "''previous_call'' \<in> fst ` set prevp"
  using assms
  by (auto simp: previous_call_props_def and_then_def split: sum.splits option.splits)

lemma write_properties_flag:
  assumes "write_properties w details previous = Inr props"
  shows "obj_get props ''is_first_call'' = Some (JBool (previous = None))
       \<and> (obj_get props ''previous_call'' = None \<longleftrightarrow> previous = None)"
proof -
  define A where "A = (if truthy_opt (requestBody details)
                   then and_then (sanitizeBody (requestBody details))
                          (\<lambda>b. Inr [(''request_body'', b)])
                   else Inr [])"
  define B where "B = (if truthy_opt (responseBody details)
                   then and_then (sanitizeResponse (responseBody details))
                          (\<lambda>b. Inr [(''response_body'', b)])
                   else Inr [])"
  define C where "C = (case previous of None \<Rightarrow> Inr [] | Some p \<Rightarrow> previous_call_props w p)"
  define base where "base = [(''method'', JStr (wd_method details)),
                      (''path'', JStr (wd_path details)),
                      (''url'', JStr (wd_url details)),
                      (''status_code'', JNum (wd_statusCode details)),
                      (''duration_ms'', JNum (wd_duration details)),
                      (''timestamp'', JStr (iso_string w (clock w)))]"
  define flag where "flag = (if hasChanges (calculateChanges previous details)
                then [(''changes'', JObj (changes (calculateChanges previous details))),
                      (''change_summary'', JStr (summary (calculateChanges previous details))),
                      (''is_first_call'', JBool False)]
                else [(''is_first_call'', JBool (case previous of None \<Rightarrow> True | Some p \<Rightarrow> False))])"
  define sess where "sess = (case wd_sessionId details of
                           None \<Rightarrow> []
                         | Some sid \<Rightarrow> if sid \<noteq> [] then [(''$session_id'', JStr sid)] else [])"
  define uid where "uid = (if wd_userId details \<noteq> [] \<and> wd_userId details \<noteq> ''anonymous''
                         then [(''user_id'', JStr (wd_userId details))] else [])"
  have unfolded: "write_properties w details previous
      = and_then A (\<lambda>request. and_then B (\<lambda>response. and_then C (\<lambda>prevp.
          Inr (set_all base (request @ response @ prevp @ flag @ sess @ uid)))))"
    unfolding write_properties_def Let_def A_def B_def C_def base_def flag_def sess_def uid_def
    by (rule refl)
  from assms obtain request response prevp where
    a: "A = Inr request" and b: "B = Inr response" and c: "C = Inr prevp" and
    props: "props = set_all base (request @ response @ prevp @ flag @ sess @ uid)"
    unfolding unfolded and_then_def by (auto split: sum.splits)
  have ka: "fst ` set request \<subseteq> {''request_body''}"
    using a unfolding A_def and_then_def by (auto split: if_splits sum.splits)
  have kb: "fst ` set response \<subseteq> {''response_body''}"
    using b unfolding B_def and_then_def by (auto split: if_splits sum.splits)
  have kf: "fst ` set flag \<subseteq> {''changes'', ''change_summary'', ''is_first_call''}"
    unfolding flag_def by auto
  have ks: "fst ` set sess \<subseteq> {''$session_id''}"
    unfolding sess_def by (auto split: option.splits if_splits)
  have ku: "fst ` set uid \<subseteq> {''user_id''}"
    unfolding uid_def by (auto split: if_splits)
  have kbase: "''previous_call'' \<notin> fst ` set base"
    unfolding base_def by simp
  have kc: "''previous_call'' \<in> fst ` set prevp \<longleftrightarrow> previous \<noteq> None"
  proof (cases previous)
    case None
    with c show ?thesis by (simp add: C_def)
  next
    case (Some p)
    with c have "previous_call_props w p = Inr prevp" by (simp add: C_def)
    then show ?thesis using Some previous_call_props_keys by simp
  qed
  have fs: "map_of (rev sess) ''is_first_call'' = None"
    using ks by (auto simp: map_of_eq_None_iff)
  have fu: "map_of (rev uid) ''is_first_call'' = None"
    using ku by (auto simp: map_of_eq_None_iff)
  have ff: "map_of (rev flag) ''is_first_call'' = Some (JBool (previous = None))"
    unfolding flag_def by (rule flag_piece)
  have first: "obj_get props ''is_first_call'' = Some (JBool (previous = None))"
    by (simp add: props obj_get_set_all map_add_def fs fu ff)
  have "obj_get props ''previous_call'' = None \<longleftrightarrow> ''previous_call'' \<notin> fst ` set prevp"
    using ka kb kf ks ku kbase
    by (auto simp: props obj_get_set_all_None)
  with kc first show ?thesis by simp
qed

subsection \<open>Emission of the write event\<close>

lemma and_then_InrD:
  assumes "and_then r f = Inr y"
  obtains x where "r = Inr x" and "f x = Inr y"
  using assms by (cases r) (simp_all add: and_then_def)

lemma trackWrite_result:
  assumes "fst (trackWriteRequestWithComparison w details s) = Inr s'"
    and "fst (getPreviousCallFromPostHog w (wd_method details) (wd_path details)
               (Some (wd_userId details))) = Inr previous"
  obtains props where "write_properties w details previous = Inr props"
    and "s' = track w (wd_userId details) ''api_write_request'' (Some props) s"
proof -
  from assms have "and_then (write_properties w details previous)
      (\<lambda>props. Inr (track w (wd_userId details) ''api_write_request'' (Some props) s)) = Inr s'"
    by (simp add: trackWriteRequestWithComparison_def Let_def)
  then show thesis
    by (rule and_then_InrD) (auto intro: that)
qed

lemma trackError_result:
  assumes "trackError w details s = Inr s'"
  obtains props where "s' = track w (ed_userId details) ''error_occurred'' (Some props) s"
proof -
  from assms show thesis
    unfolding trackError_def Let_def
    by (rule and_then_InrD) (auto intro: that)
qed

lemma emitted_same: "emitted s s = []"
  by (simp add: emitted_def)

lemma slice_from_last:
  assumes "xs \<noteq> []" and "0 < k"
  shows "slice_from (- int k) xs \<noteq> [] \<and> last (slice_from (- int k) xs) = last xs"
proof -
  have "slice_from (- int k) xs = drop (length xs - k) xs"
    using assms by (auto simp: slice_from_def Let_def max_def nat_diff_distrib')
  moreover have "length xs - k < length xs"
    using assms by (cases xs) auto
  ultimately show ?thesis by (simp add: last_drop)
qed

lemma track_eventLog:
  "track w d n (Some props) s = s
   \<or> (eventLog (track w d n (Some props) s) \<noteq> []
      \<and> last (eventLog (track w d n (Some props) s))
          = \<lparr>distinctId = d, eventName = n, properties = props, timestamp = clock w\<rparr>)"
proof (cases "env_or (POSTHOG_API_KEY (environment w)) placeholder_key = []
              \<or> env_or (POSTHOG_API_KEY (environment w)) placeholder_key = placeholder_key")
  case True
  then show ?thesis by (simp add: track_def)
next
  case False
  define t where "t = \<lparr>distinctId = d, eventName = n, properties = props, timestamp = clock w\<rparr>"
  define s1 where "s1 = (if capture_throws w then s else s\<lparr>captured := captured s @
     [\<lparr>ev_distinctId = d, ev_event = n,
       ev_properties = set_all props
          [(''timestamp'', JStr (iso_string w (clock w))),
           (''$lib'', JStr ''posthog-node''),
           (''$lib_version'', JStr ''4.0.0'')]\<rparr>]\<rparr>)"
  have log: "eventLog (track w d n (Some props) s)
      = (if length (eventLog s1 @ [t]) > MAX_LOG_SIZE
         then slice_from (- int MAX_LOG_SIZE) (eventLog s1 @ [t]) else eventLog s1 @ [t])"
    using False unfolding track_def Let_def t_def s1_def by simp
  have "0 < MAX_LOG_SIZE" by (simp add: MAX_LOG_SIZE_def)
  then have "slice_from (- int MAX_LOG_SIZE) (eventLog s1 @ [t]) \<noteq> []
      \<and> last (slice_from (- int MAX_LOG_SIZE) (eventLog s1 @ [t])) = t"
    using slice_from_last [of "eventLog s1 @ [t]" MAX_LOG_SIZE] by simp
  then show ?thesis unfolding log t_def [symmetric] by simp
qed


text \<open>
  Claim C2. In every enriched write event that \<^verbatim>\<open>trackWriteRequestWithComparison\<close> emits,
  \<^verbatim>\<open>is_first_call\<close> is true if and only if the previous call retrieved from the store
  was null, and the event has a \<^verbatim>\<open>previous_call\<close> property if and only if it was not.
  This holds for the event handed to the client and for the entry appended to the local
  log.
\<close>

theorem write_event_first_call_flag:
  assumes run: "fst (trackWriteRequestWithComparison w details s) = Inr s'"
    and prev: "fst (getPreviousCallFromPostHog w (wd_method details) (wd_path details)
                     (Some (wd_userId details))) = Inr previous"
  shows "(\<forall>e \<in> set (emitted s s').
            ev_event e = ''api_write_request''
            \<and> obj_get (ev_properties e) ''is_first_call'' = Some (JBool (previous = None))
            \<and> (obj_get (ev_properties e) ''previous_call'' = None \<longleftrightarrow> previous = None))
       \<and> (s' = s
          \<or> (eventLog s' \<noteq> []
             \<and> eventName (last (eventLog s')) = ''api_write_request''
             \<and> obj_get (properties (last (eventLog s'))) ''is_first_call''
                 = Some (JBool (previous = None))
             \<and> (obj_get (properties (last (eventLog s'))) ''previous_call'' = None
                 \<longleftrightarrow> previous = None)))"
proof -
  from run prev obtain props where
    wp: "write_properties w details previous = Inr props" and
    s': "s' = track w (wd_userId details) ''api_write_request'' (Some props) s"
    by (rule trackWrite_result)
  note flag = write_properties_flag [OF wp]
  have "ev_event e = ''api_write_request''
      \<and> obj_get (ev_properties e) ''is_first_call'' = Some (JBool (previous = None))
      \<and> (obj_get (ev_properties e) ''previous_call'' = None \<longleftrightarrow> previous = None)"
    if "e \<in> set (emitted s s')" for e
  proof -
    from that have "e = \<lparr>ev_distinctId = wd_userId details, ev_event = ''api_write_request'',
            ev_properties =
              set_all props
                [(''timestamp'', JStr (iso_string w (clock w))),
                 (''$lib'', JStr ''posthog-node''),
                 (''$lib_version'', JStr ''4.0.0'')]\<rparr>"
      using track_emitted [of s w "wd_userId details" "''api_write_request''" "Some props"]
      by (auto simp: s')
    moreover have "obj_get (set_all props
                [(''timestamp'', JStr (iso_string w (clock w))),
                 (''$lib'', JStr ''posthog-node''),
                 (''$lib_version'', JStr ''4.0.0'')]) ''is_first_call'' = obj_get props ''is_first_call''"
      by (simp add: obj_get_set_all)
    moreover have "obj_get (set_all props
                [(''timestamp'', JStr (iso_string w (clock w))),
                 (''$lib'', JStr ''posthog-node''),
                 (''$lib_version'', JStr ''4.0.0'')]) ''previous_call'' = obj_get props ''previous_call''"
      by (simp add: obj_get_set_all)
    ultimately show ?thesis using flag by simp
  qed
  moreover have "s' = s
          \<or> (eventLog s' \<noteq> []
             \<and> eventName (last (eventLog s')) = ''api_write_request''
             \<and> obj_get (properties (last (eventLog s'))) ''is_first_call''
                 = Some (JBool (previous = None))
             \<and> (obj_get (properties (last (eventLog s'))) ''previous_call'' = None
                 \<longleftrightarrow> previous = None))"
    using track_eventLog [of w "wd_userId details" "''api_write_request''" props s] flag
    by (auto simp: s')
  ultimately show ?thesis by blast
qed

text \<open>Scenario B (no previous call for \<^verbatim>\<open>POST /items\<close>: the flag is true and there is no
  \<^verbatim>\<open>previous_call\<close>) and a run in which the store holds a previous call.\<close>

theorem write_event_first_call_flag_witness:
  "first_emitted one_event
     (state_after (trackWriteRequestWithComparison unreachable_world post_items_details one_event)
        one_event)
     = (''api_write_request'', Some (JBool True), True)
   \<and> first_emitted one_event
     (state_after (trackWriteRequestWithComparison fallback_world post_items_details one_event)
        one_event)
     = (''api_write_request'', Some (JBool False), False)"
proof -
  let ?S1 = "state_after (trackWriteRequestWithComparison unreachable_world post_items_details
                one_event) one_event"
  let ?S2 = "state_after (trackWriteRequestWithComparison fallback_world post_items_details
                one_event) one_event"
  have run1: "fst (trackWriteRequestWithComparison unreachable_world post_items_details one_event)
      = Inr ?S1"
    by code_simp
  have prev1: "fst (getPreviousCallFromPostHog unreachable_world (wd_method post_items_details)
      (wd_path post_items_details) (Some (wd_userId post_items_details))) = Inr None"
    by code_simp
  have run2: "fst (trackWriteRequestWithComparison fallback_world post_items_details one_event)
      = Inr ?S2"
    by code_simp
  have prev2: "fst (getPreviousCallFromPostHog fallback_world (wd_method post_items_details)
      (wd_path post_items_details) (Some (wd_userId post_items_details))) = Inr (Some stored_call)"
    by code_simp
  have ne1: "emitted one_event ?S1 \<noteq> []" by code_simp
  have ne2: "emitted one_event ?S2 \<noteq> []" by code_simp
  from ne1 obtain e1 es1 where e1: "emitted one_event ?S1 = e1 # es1"
    by (cases "emitted one_event ?S1") auto
  from ne2 obtain e2 es2 where e2: "emitted one_event ?S2 = e2 # es2"
    by (cases "emitted one_event ?S2") auto
  have "first_emitted one_event ?S1 = (''api_write_request'', Some (JBool True), True)"
    using write_event_first_call_flag [OF run1 prev1] e1
    by (simp add: first_emitted_def)
  moreover have "first_emitted one_event ?S2 = (''api_write_request'', Some (JBool False), False)"
    using write_event_first_call_flag [OF run2 prev2] e2
    by (simp add: first_emitted_def)
  ultimately show ?thesis by simp
qed

subsection \<open>The interceptor\<close>

lemma intercept_cases:
  assumes "fst (intercept w startTime request statusCode outcome s) = Inr s'"
  shows "s' = s
       \<or> (\<exists>d n props. s' = track w d n (Some props) s
            \<and> ((n = ''api_write_request''
                 \<and> req_method request \<in> {''POST'', ''PUT'', ''PATCH''}
                 \<and> (\<exists>v. outcome = Returned v))
                \<or> (n = ''error_occurred'' \<and> (\<exists>err. outcome = Threw err))))"
proof (cases "interceptor_sanitizeBody (req_body request)")
  case (Inl e)
  with assms show ?thesis by (simp add: intercept_def)
next
  case (Inr body)
  show ?thesis
  proof (cases outcome)
    case (Returned responseData)
    show ?thesis
    proof (cases "req_method request \<in> {''POST'', ''PUT'', ''PATCH''}")
      case False
      with assms Inr Returned show ?thesis by (simp add: intercept_def Let_def)
    next
      case True
      show ?thesis
      proof (cases "sanitizeResponse responseData")
        case (Inl e)
        with assms Inr Returned True show ?thesis by (simp add: intercept_def Let_def)
      next
        case resp: (Inr response_body)
        define details where "details = \<lparr>requestBody = Some body, responseBody = Some response_body,
                           wd_method = req_method request,
                           wd_path = str_or (req_route_path request) (req_path request),
                           wd_url = req_url request,
                           wd_statusCode = (if statusCode = 0 then 200 else statusCode),
                           wd_userId = str_or (req_user_id request) ''anonymous'',
                           wd_duration = clock w - startTime,
                           wd_sessionId = session_header (req_headers request)\<rparr>"
        from assms Inr Returned True resp
        have run: "fst (trackWriteRequestWithComparison w details s) = Inr s'"
          by (simp add: intercept_def Let_def details_def)
        obtain previous where "fst (getPreviousCallFromPostHog w (wd_method details)
            (wd_path details) (Some (wd_userId details))) = Inr previous"
          using catch_null_Inr by (auto simp: getPreviousCallFromPostHog_def)
        with run obtain props where
          "s' = track w (wd_userId details) ''api_write_request'' (Some props) s"
          by (rule trackWrite_result)
        with True Returned show ?thesis by blast
      qed
    qed
  next
    case (Threw error)
    with assms Inr obtain details where "trackError w details s = Inr s'"
      by (auto simp: intercept_def Let_def)
    then obtain props where "s' = track w (ed_userId details) ''error_occurred'' (Some props) s"
      by (rule trackError_result)
    with Threw show ?thesis by blast
  qed
qed

text \<open>
  Claim C7. During one intercepted call the interceptor emits at most one event. An
  \<^verbatim>\<open>api_write_request\<close> event is emitted only when the method is POST, PUT or PATCH and the
  handler returned; when the handler threw, whatever is emitted is the error event
  \<^verbatim>\<open>error_occurred\<close>.
\<close>

theorem write_event_only_after_successful_mutation:
  assumes "fst (intercept w startTime request statusCode outcome s) = Inr s'"
  shows "captured s' = captured s @ emitted s s'
       \<and> length (emitted s s') \<le> 1
       \<and> ((\<exists>e \<in> set (emitted s s'). ev_event e = ''api_write_request'') \<longrightarrow>
            req_method request \<in> {''POST'', ''PUT'', ''PATCH''} \<and> (\<exists>v. outcome = Returned v))
       \<and> ((\<exists>err. outcome = Threw err) \<longrightarrow>
            (\<forall>e \<in> set (emitted s s'). ev_event e = ''error_occurred''))"
proof -
  from intercept_cases [OF assms] consider
    (same) "s' = s"
    | (tracked) d n props where "s' = track w d n (Some props) s"
        "(n = ''api_write_request'' \<and> req_method request \<in> {''POST'', ''PUT'', ''PATCH''}
            \<and> (\<exists>v. outcome = Returned v))
         \<or> (n = ''error_occurred'' \<and> (\<exists>err. outcome = Threw err))"
    by blast
  then show ?thesis
  proof cases
    case same
    then show ?thesis by (simp add: emitted_same)
  next
    case tracked
    have c: "captured s' = captured s @ emitted s s'"
      unfolding tracked(1) by (rule track_captured)
    have n: "\<forall>e \<in> set (emitted s s'). ev_event e = n" and l: "length (emitted s s') \<le> 1"
      using track_emitted [of s w d n "Some props"] by (auto simp: tracked(1))
    from tracked(2) show ?thesis
    proof
      assume "n = ''api_write_request'' \<and> req_method request \<in> {''POST'', ''PUT'', ''PATCH''}
            \<and> (\<exists>v. outcome = Returned v)"
      with c n l show ?thesis by auto
    next
      assume "n = ''error_occurred'' \<and> (\<exists>err. outcome = Threw err)"
      with c n l show ?thesis by auto
    qed
  qed
qed

text \<open>A \<^verbatim>\<open>POST\<close> that succeeds, a \<^verbatim>\<open>DELETE\<close> that succeeds and a \<^verbatim>\<open>POST\<close> whose handler
  throws.\<close>

theorem write_event_only_after_successful_mutation_witness:
  "map ev_event
     (emitted one_event
        (state_after (intercept fallback_world 988 post_items 201
                        (Returned (Some (JObj [(''id'', JNum 1)]))) one_event) one_event))
     = [''api_write_request'']
   \<and> map ev_event
     (emitted one_event
        (state_after (intercept fallback_world 988 (post_items\<lparr>req_method := ''DELETE''\<rparr>) 200
                        (Returned (Some (JObj [(''id'', JNum 1)]))) one_event) one_event))
     = []
   \<and> map ev_event
     (emitted one_event
        (state_after (intercept fallback_world 988 post_items 201 (Threw not_found) one_event)
           one_event))
     = [''error_occurred'']
   \<and> captured (state_after (intercept fallback_world 988 post_items 201
                        (Returned (Some (JObj [(''id'', JNum 1)]))) one_event) one_event)
     = captured one_event @
       emitted one_event
        (state_after (intercept fallback_world 988 post_items 201
                        (Returned (Some (JObj [(''id'', JNum 1)]))) one_event) one_event)"
proof -
  let ?S = "state_after (intercept fallback_world 988 post_items 201
                        (Returned (Some (JObj [(''id'', JNum 1)]))) one_event) one_event"
  have run: "fst (intercept fallback_world 988 post_items 201
                        (Returned (Some (JObj [(''id'', JNum 1)]))) one_event) = Inr ?S"
    by code_simp
  have a: "map ev_event (emitted one_event ?S) = [''api_write_request'']"
    by code_simp
  have b: "map ev_event
     (emitted one_event
        (state_after (intercept fallback_world 988 (post_items\<lparr>req_method := ''DELETE''\<rparr>) 200
                        (Returned (Some (JObj [(''id'', JNum 1)]))) one_event) one_event))
     = []"
    by code_simp
  have c: "map ev_event
     (emitted one_event
        (state_after (intercept fallback_world 988 post_items 201 (Threw not_found) one_event)
           one_event))
     = [''error_occurred'']"
    by code_simp
  have d: "captured ?S = captured one_event @ emitted one_event ?S"
    using write_event_only_after_successful_mutation [OF run] by blast
  from a b c d show ?thesis by blast
qed

subsection \<open>Reading the event log\<close>

lemma slice_from_positive: "0 < l \<Longrightarrow> rev (slice_from (- l) xs) = take (nat l) (rev xs)"
  by (auto simp: slice_from_def Let_def take_rev max_def nat_diff_distrib')

lemma copy_event:
  "\<lparr>distinctId = distinctId e, eventName = eventName e,
    properties = properties e, timestamp = timestamp e\<rparr> = (e :: TrackedEvent)"
  by (cases e) simp

text \<open>For a positive limit the newest entries come first, at most \<open>limit\<close> of them.\<close>

lemma getRecentEvents_positive:
  "0 < l \<Longrightarrow> getRecentEvents (Some l) s = take (nat l) (rev (eventLog s))"
  by (simp add: getRecentEvents_def slice_from_positive copy_event)

text \<open>
  Claim C8. \<^verbatim>\<open>getRecentEvents(limit)\<close> is said to return at most \<open>limit\<close> entries, and none
  when the limit is 0. With two events in the log, \<^verbatim>\<open>getRecentEvents(0)\<close> returns both:
  \<^verbatim>\<open>slice(-0)\<close> is \<^verbatim>\<open>slice(0)\<close>, the whole log.
\<close>

theorem getRecentEvents_zero_returns_all:
  "getRecentEvents (Some 0) two_events = rev (eventLog two_events)
   \<and> length (getRecentEvents (Some 0) two_events) = 2"
  by (simp add: getRecentEvents_def two_events_def slice_from_def)

subsection \<open>The local event log\<close>

text \<open>
  Claim C10. When the ingestion key is absent, empty or the placeholder, \<^verbatim>\<open>track\<close> changes
  nothing: nothing is handed to the client, the event log is what it was, and
  \<^verbatim>\<open>getRecentEvents\<close> answers as before.
\<close>

theorem track_unconfigured_noop:
  assumes "POSTHOG_API_KEY (environment w) = None
           \<or> POSTHOG_API_KEY (environment w) = Some []
           \<or> POSTHOG_API_KEY (environment w) = Some placeholder_key"
  shows "track w did name props s = s
         \<and> getRecentEvents limit (track w did name props s) = getRecentEvents limit s"
proof -
  from assms have "env_or (POSTHOG_API_KEY (environment w)) placeholder_key = placeholder_key"
    by (auto simp: env_or_def)
  then have "track w did name props s = s"
    by (simp add: track_def)
  then show ?thesis by simp
qed

theorem track_unconfigured_noop_witness:
  "track offline_world ''u2'' ''api_write_request'' (Some [(''path'', JStr ''/items'')]) one_event
     = one_event
   \<and> getRecentEvents (Some 10)
        (track offline_world ''u2'' ''api_write_request'' (Some [(''path'', JStr ''/items'')])
           one_event)
     = getRecentEvents (Some 10) one_event"
proof -
  have "POSTHOG_API_KEY (environment offline_world) = None"
    by (simp add: offline_world_def no_env_def)
  then show ?thesis
    using track_unconfigured_noop [of offline_world] by blast
qed

end
